theory Spec2Isabelle
  imports Complex_Main "HOL-Library.Word"
begin

text \<open>
  The detection service of FridgeScan (\<^verbatim>\<open>backend/app/services/detection_service.py\<close>):
  the label classifier, the grouping of one model's detections, the merge of an
  ensemble run, and the choice between the primary model, the secondary model and
  both. The models and the image decoder are collaborators and enter as parameters.
\<close>

section \<open>Strings\<close>

text \<open>
  Labels are Python \<^verbatim>\<open>str\<close> values: sequences of code points. They are modelled as
  \<^typ>\<open>string\<close>, a \<^typ>\<open>char\<close> being a code point below 256 (the Latin-1 range that
  the type holds; a label with a code point from 256 on is outside the model). On
  that range \<^verbatim>\<open>str.lower\<close> works code point by code point: it adds 32 to
  \<^verbatim>\<open>U+0041\<close> to \<^verbatim>\<open>U+005A\<close> and to \<^verbatim>\<open>U+00C0\<close> to \<^verbatim>\<open>U+00DE\<close> except the
  multiplication sign \<^verbatim>\<open>U+00D7\<close>, and leaves every other code point as it is.
\<close>

definition lower_char :: "char \<Rightarrow> char" where
  "lower_char c =
     (let n = (of_char c :: nat)
      in if (65 \<le> n \<and> n \<le> 90) \<or> (192 \<le> n \<and> n \<le> 222 \<and> n \<noteq> 215)
         then char_of (n + 32) else c)"

definition lower :: "string \<Rightarrow> string" where
  "lower s = map lower_char s"

text \<open>The code points below 256 for which \<^verbatim>\<open>str.isspace\<close> holds, which are those
  that \<^verbatim>\<open>str.strip\<close> removes: TAB, LF, VT, FF, CR, FS, GS, RS, US, the space, NEL
  (\<^verbatim>\<open>U+0085\<close>) and the no-break space (\<^verbatim>\<open>U+00A0\<close>).\<close>

definition is_space :: "char \<Rightarrow> bool" where
  "is_space c =
     (c \<in> set [CHR 0x09, CHR 0x0A, CHR 0x0B, CHR 0x0C, CHR 0x0D,
                CHR 0x1C, CHR 0x1D, CHR 0x1E, CHR 0x1F, CHR 0x20, CHR 0x85, CHR 0xA0])"

definition strip :: "string \<Rightarrow> string" where
  "strip s = rev (dropWhile is_space (rev (dropWhile is_space s)))"

text \<open>\<^verbatim>\<open>sub in s\<close> on strings: \<^verbatim>\<open>sub\<close> occurs in \<^verbatim>\<open>s\<close> as a contiguous run.\<close>

fun starts_with :: "string \<Rightarrow> string \<Rightarrow> bool" where
  "starts_with [] s = True"
| "starts_with (c # cs) [] = False"
| "starts_with (c # cs) (d # ds) = (c = d \<and> starts_with cs ds)"

fun substr :: "string \<Rightarrow> string \<Rightarrow> bool" where
  "substr sub [] = (sub = [])"
| "substr sub (d # ds) = (starts_with sub (d # ds) \<or> substr sub ds)"

section \<open>Label classification\<close>

text \<open>The vocabularies of \<^verbatim>\<open>_category_from_label\<close>, in the order of the source.\<close>

definition fruits :: "string list" where
  "fruits = [''apple'', ''banana'', ''blue berry'', ''stawberry'', ''strawberry'',
             ''lemon'', ''orange'']"

definition vegetables :: "string list" where
  "vegetables = [''brinjal'', ''cabbage'', ''capsicum'', ''carrot'', ''corn'', ''cucumber'',
                 ''ginger'', ''green beans'', ''green chilly'', ''green leaves'', ''lettuce'',
                 ''mushroom'', ''potato'', ''sweet potato'', ''tomato'', ''spinach'',
                 ''broccoli'']"

definition dairy :: "string list" where
  "dairy = [''milk'', ''cheese'', ''butter'', ''fresh cream'', ''yogurt'', ''egg'']"

definition meat :: "string list" where
  "meat = [''chicken'', ''meat'', ''shrimp'']"

definition grains :: "string list" where
  "grains = [''bread'', ''flour'']"

definition other :: "string list" where
  "other = [''chocolate'']"

text \<open>The loop \<^verbatim>\<open>for v in vocab: if v in lower_label: return ...\<close>: whether it
  returns.\<close>

fun partial_match :: "string list \<Rightarrow> string \<Rightarrow> bool" where
  "partial_match [] lower_label = False"
| "partial_match (v # vs) lower_label =
     (if substr v lower_label then True else partial_match vs lower_label)"

definition category_from_label :: "string \<Rightarrow> string" where
  "category_from_label label =
     (let lower_label = strip (lower label) in
      if lower_label \<in> set fruits then ''fruits''
      else if lower_label \<in> set vegetables then ''vegetables''
      else if lower_label \<in> set dairy then ''dairy''
      else if lower_label \<in> set meat then ''meat''
      else if lower_label \<in> set grains then ''grains''
      else if lower_label \<in> set other then ''other''
      else if partial_match fruits lower_label then ''fruits''
      else if partial_match vegetables lower_label then ''vegetables''
      else if partial_match dairy lower_label then ''dairy''
      else if partial_match meat lower_label then ''meat''
      else if partial_match grains lower_label then ''grains''
      else if substr ''fruit'' lower_label \<or> substr ''berry'' lower_label then ''fruits''
      else if substr ''veg'' lower_label \<or> substr ''leaf'' lower_label then ''vegetables''
      else if substr ''milk'' lower_label \<or> substr ''cream'' lower_label
              \<or> substr ''cheese'' lower_label then ''dairy''
      else if substr ''chicken'' lower_label \<or> substr ''meat'' lower_label
              \<or> substr ''fish'' lower_label \<or> substr ''shrimp'' lower_label then ''meat''
      else if substr ''bread'' lower_label \<or> substr ''flour'' lower_label
              \<or> substr ''grain'' lower_label then ''grains''
      else ''uncategorized'')"

subsection \<open>The cascade as the specification words it\<close>

text \<open>
  The specification describes the classifier as three tiers that are tried in a fixed
  order, each tier walking an ordered table of (category, entries) and answering with
  the first category that has a hit. These definitions follow that wording; the
  theorem below compares them with \<^const>\<open>category_from_label\<close>.
\<close>

fun first_hit :: "(string list \<Rightarrow> bool) \<Rightarrow> (string \<times> string list) list \<Rightarrow> string option" where
  "first_hit hit [] = None"
| "first_hit hit ((cat, entries) # rest) = (if hit entries then Some cat else first_hit hit rest)"

definition vocabularies :: "(string \<times> string list) list" where
  "vocabularies = [(''fruits'', fruits), (''vegetables'', vegetables), (''dairy'', dairy),
                   (''meat'', meat), (''grains'', grains)]"

definition fragment_rules :: "(string \<times> string list) list" where
  "fragment_rules = [(''fruits'', [''fruit'', ''berry'']), (''vegetables'', [''veg'', ''leaf'']),
                     (''dairy'', [''milk'', ''cream'', ''cheese'']),
                     (''meat'', [''chicken'', ''meat'', ''fish'', ''shrimp'']),
                     (''grains'', [''bread'', ''flour'', ''grain''])]"

definition exact_tier :: "string \<Rightarrow> string option" where
  "exact_tier l = first_hit (\<lambda>entries. l \<in> set entries) (vocabularies @ [(''other'', other)])"

definition substring_tier :: "string \<Rightarrow> string option" where
  "substring_tier l = first_hit (\<lambda>entries. list_ex (\<lambda>v. substr v l) entries) vocabularies"

definition fragment_tier :: "string \<Rightarrow> string option" where
  "fragment_tier l = first_hit (\<lambda>entries. list_ex (\<lambda>v. substr v l) entries) fragment_rules"

definition categorize_cascade :: "string \<Rightarrow> string" where
  "categorize_cascade l =
     (case exact_tier l of Some c \<Rightarrow> c
      | None \<Rightarrow> (case substring_tier l of Some c \<Rightarrow> c
        | None \<Rightarrow> (case fragment_tier l of Some c \<Rightarrow> c
          | None \<Rightarrow> ''uncategorized'')))"

section \<open>Detections\<close>

text \<open>
  A detection is the dict that \<^verbatim>\<open>_detect_with_model\<close> builds, with its five keys.
  Confidences and box coordinates are Python floats; they are modelled as reals, so
  the comparisons of the source are the order of the reals (no NaN). A grouped
  detection is the dict of \<^verbatim>\<open>_group_and_count_detections\<close>: the same keys and
  \<^verbatim>\<open>"unit"\<close>. The defaults of the \<^verbatim>\<open>det.get(...)\<close> calls of the source are never
  taken on a dict that has all five keys.
\<close>

record detection =
  name :: string
  category :: string
  quantity :: int
  confidence :: real
  bbox :: "real list"

record grouped = detection +
  unit :: string

text \<open>
  A Python dict keeps its keys in the order of their first insertion, and assigning to a
  key that is present replaces the value in place. It is modelled as an association list
  with distinct keys; \<^verbatim>\<open>d[k] = v\<close> is \<open>dict_set k v d\<close>, \<^verbatim>\<open>k in d\<close> and \<^verbatim>\<open>d[k]\<close> are
  \<^const>\<open>map_of\<close>, and \<^verbatim>\<open>list(d.values())\<close> is \<open>map snd d\<close>.
\<close>

fun dict_set :: "'k \<Rightarrow> 'v \<Rightarrow> ('k \<times> 'v) list \<Rightarrow> ('k \<times> 'v) list" where
  "dict_set k v [] = [(k, v)]"
| "dict_set k v ((k', v') # d) = (if k' = k then (k', v) # d else (k', v') # dict_set k v d)"

subsection \<open>Grouping and counting\<close>

definition group_step :: "(string \<times> grouped) list \<Rightarrow> detection \<Rightarrow> (string \<times> grouped) list" where
  "group_step grouped_so_far det =
     (let name' = strip (lower (name det));
          category' = category det;
          key = name' @ ''_'' @ category'
      in case map_of grouped_so_far key of
           Some g \<Rightarrow>
             dict_set key
               (g\<lparr>quantity := quantity g + 1,
                  confidence := max (confidence g) (confidence det)\<rparr>)
               grouped_so_far
         | None \<Rightarrow>
             dict_set key
               \<lparr>name = name det, category = category', quantity = 1,
                confidence = confidence det, bbox = bbox det, unit = ''item''\<rparr>
               grouped_so_far)"

definition group_and_count_detections :: "detection list \<Rightarrow> grouped list" where
  "group_and_count_detections detections = map snd (foldl group_step [] detections)"

subsection \<open>Merging the detections of an ensemble run\<close>

definition merge_step :: "(string \<times> detection) list \<Rightarrow> detection \<Rightarrow> (string \<times> detection) list" where
  "merge_step merged det =
     (let name' = lower (name det)
      in case map_of merged name' of
           None \<Rightarrow> dict_set name' det merged
         | Some stored \<Rightarrow>
             if confidence det > confidence stored then dict_set name' det merged
             else merged)"

definition merge_detections :: "detection list \<Rightarrow> detection list" where
  "merge_detections dets = map snd (foldl merge_step [] dets)"

subsection \<open>What the specification says of both folds\<close>

text \<open>
  The keys of a list in the order of their first occurrence, the summary of the
  detections that share a grouping key, and the winner among the detections that share
  a merge key (the first one that has the greatest confidence).
\<close>

definition first_keys :: "'a list \<Rightarrow> 'a list" where
  "first_keys ks = rev (remdups (rev ks))"

definition group_key :: "detection \<Rightarrow> string" where
  "group_key d = strip (lower (name d)) @ ''_'' @ category d"

definition summarize :: "detection list \<Rightarrow> grouped" where
  "summarize ds =
     \<lparr>name = name (hd ds), category = category (hd ds), quantity = int (length ds),
      confidence = Max (confidence ` set ds), bbox = bbox (hd ds), unit = ''item''\<rparr>"

definition merge_key :: "detection \<Rightarrow> string" where
  "merge_key d = lower (name d)"

definition best :: "detection list \<Rightarrow> detection" where
  "best ds = hd (filter (\<lambda>d. confidence d = Max (confidence ` set ds)) ds)"

section \<open>The detection service\<close>

text \<open>
  A loaded model is a callable that takes the decoded image and returns its results or
  raises; it is modelled as a function to \<open>message + results\<close>, the message being
  that of the exception. A result holds \<^verbatim>\<open>boxes\<close> or nothing, and each of the three
  tensors of the boxes may be absent. (Boxes without rows are falsy as well and skipped
  by the source; they have no rows to zip, so skipping them or not gives the same
  list.) The class index is the integer that \<^verbatim>\<open>int(cls_idx)\<close> reads.
\<close>

record boxes =
  cls :: "int list option"
  conf :: "real list option"
  xyxy :: "real list list option"

type_synonym 'img yolo = "'img \<Rightarrow> string + boxes option list"

datatype exn = DetectionModelNotReady string | PyException string

fun message_of :: "exn \<Rightarrow> string" where
  "message_of (DetectionModelNotReady m) = m"
| "message_of (PyException m) = m"

datatype slot = Primary | Secondary

record 'img detection_service =
  primary_model :: "'img yolo option"
  secondary_model :: "'img yolo option"
  primary_class_names :: "int \<rightharpoonup> string"
  secondary_class_names :: "int \<rightharpoonup> string"
  primary_model_error :: "string option"
  secondary_model_error :: "string option"
  use_ensemble :: bool

text \<open>
  The state that a call runs in: the service object, and the log of the calls made to
  the models (the slot of each call, in order). The log is not a field of the source; it
  records the effect that the claims about skipped inference attempts speak of.
\<close>

record 'img state =
  self :: "'img detection_service"
  calls :: "slot list"

definition model_ready :: "'img detection_service \<Rightarrow> bool" where
  "model_ready s = (primary_model s \<noteq> None \<or> secondary_model s \<noteq> None)"

definition primary_model_ready :: "'img detection_service \<Rightarrow> bool" where
  "primary_model_ready s = (primary_model s \<noteq> None)"

definition secondary_model_ready :: "'img detection_service \<Rightarrow> bool" where
  "secondary_model_ready s = (secondary_model s \<noteq> None)"

definition set_ensemble_mode :: "bool \<Rightarrow> 'img detection_service \<Rightarrow> 'img detection_service" where
  "set_ensemble_mode enabled s =
     s\<lparr>use_ensemble := enabled \<and> primary_model_ready s \<and> secondary_model_ready s\<rparr>"

definition ensemble_mode :: "'img detection_service \<Rightarrow> bool" where
  "ensemble_mode s = use_ensemble s"

text \<open>\<^verbatim>\<open>a or b or "..."\<close> on two optional strings: \<^verbatim>\<open>None\<close> and the empty string
  are falsy.\<close>

definition error_or :: "string option \<Rightarrow> string option \<Rightarrow> string \<Rightarrow> string" where
  "error_or a b otherwise =
     (case a of Some m \<Rightarrow> if m \<noteq> [] then m
                          else (case b of Some m' \<Rightarrow> if m' \<noteq> [] then m' else otherwise
                                | None \<Rightarrow> otherwise)
      | None \<Rightarrow> (case b of Some m' \<Rightarrow> if m' \<noteq> [] then m' else otherwise
                  | None \<Rightarrow> otherwise))"

text \<open>The decimal digits of \<^verbatim>\<open>f"class_{int_cls}"\<close>.\<close>

function str_nat :: "nat \<Rightarrow> string" where
  "str_nat n = (if n < 10 then [''0123456789'' ! n]
                else str_nat (n div 10) @ [''0123456789'' ! (n mod 10)])"
  by pat_completeness auto
termination
  by (relation "measure id") auto

definition str_int :: "int \<Rightarrow> string" where
  "str_int i = (if i < 0 then ''-'' @ str_nat (nat (- i)) else str_nat (nat i))"

definition detection_of :: "(int \<rightharpoonup> string) \<Rightarrow> int \<times> real \<times> real list \<Rightarrow> detection" where
  "detection_of class_names t =
     (case t of (int_cls, confidence', bbox') \<Rightarrow>
        (let label = (case class_names int_cls of Some l \<Rightarrow> l
                      | None \<Rightarrow> ''class_'' @ str_int int_cls)
         in \<lparr>name = label, category = category_from_label label, quantity = 1,
             confidence = confidence', bbox = bbox'\<rparr>))"

definition tolist :: "'a list option \<Rightarrow> 'a list" where
  "tolist t = (case t of Some xs \<Rightarrow> xs | None \<Rightarrow> [])"

definition detections_of_result :: "(int \<rightharpoonup> string) \<Rightarrow> boxes option \<Rightarrow> detection list" where
  "detections_of_result class_names result =
     (case result of
        None \<Rightarrow> []
      | Some b \<Rightarrow>
          map (detection_of class_names)
            (zip (tolist (cls b)) (zip (tolist (conf b)) (tolist (xyxy b)))))"

definition detections_of_results :: "(int \<rightharpoonup> string) \<Rightarrow> boxes option list \<Rightarrow> detection list" where
  "detections_of_results class_names results =
     concat (map (detections_of_result class_names) results)"

text \<open>
  \<^verbatim>\<open>_detect_with_model\<close>. The slot is passed for the log only. A model that is
  \<^verbatim>\<open>None\<close> cannot be called: Python raises a \<^verbatim>\<open>TypeError\<close>, and no model runs.
\<close>

definition detect_with_model ::
  "slot \<Rightarrow> 'img yolo option \<Rightarrow> (int \<rightharpoonup> string) \<Rightarrow> 'img \<Rightarrow> 'img state
     \<Rightarrow> (exn + detection list) \<times> 'img state" where
  "detect_with_model sl model class_names img st =
     (case model of
        None \<Rightarrow>
          (Inl (PyException ([CHR 0x27] @ ''NoneType'' @ [CHR 0x27] @ '' object is not callable'')),
           st)
      | Some m \<Rightarrow>
          (case m img of
             Inl msg \<Rightarrow> (Inl (PyException msg), st\<lparr>calls := calls st @ [sl]\<rparr>)
           | Inr results \<Rightarrow>
               (Inr (detections_of_results class_names results),
                st\<lparr>calls := calls st @ [sl]\<rparr>)))"

definition detect_with_ensemble ::
  "'img \<Rightarrow> 'img state \<Rightarrow> (exn + detection list) \<times> 'img state" where
  "detect_with_ensemble img st =
     (case detect_with_model Primary (primary_model (self st))
             (primary_class_names (self st)) img st of
        (Inl e, st1) \<Rightarrow> (Inl e, st1)
      | (Inr primary_detections, st1) \<Rightarrow>
          (case detect_with_model Secondary (secondary_model (self st1))
                  (secondary_class_names (self st1)) img st1 of
             (Inl e, st2) \<Rightarrow> (Inl e, st2)
           | (Inr secondary_detections, st2) \<Rightarrow>
               (Inr (merge_detections (primary_detections @ secondary_detections)), st2)))"

text \<open>The tail of \<^verbatim>\<open>detect_ingredients\<close>, from the comment "Fallback to secondary
  model" on: it runs when the primary model is absent or its call has raised.\<close>

definition fallback_to_secondary ::
  "'img \<Rightarrow> 'img state \<Rightarrow> (exn + detection list) \<times> 'img state" where
  "fallback_to_secondary img st =
     (if secondary_model (self st) \<noteq> None then
        (case detect_with_model Secondary (secondary_model (self st))
                (secondary_class_names (self st)) img st of
           (Inr dets, st1) \<Rightarrow> (Inr dets, st1)
         | (Inl e, st1) \<Rightarrow>
             (Inl (DetectionModelNotReady
                     (''Both primary and secondary models failed. Last error: ''
                      @ message_of e)), st1))
      else
        (Inl (DetectionModelNotReady
                (error_or (primary_model_error (self st)) (secondary_model_error (self st))
                   ''Detection models are not available.'')), st))"

text \<open>The image decoder (\<^verbatim>\<open>Image.open(...).convert("RGB")\<close>) is a collaborator: a
  parameter that returns the image or the message of the exception it raises.\<close>

definition detect_ingredients ::
  "(8 word list \<Rightarrow> string + 'img) \<Rightarrow> 8 word list \<Rightarrow> 'img state
     \<Rightarrow> (exn + detection list) \<times> 'img state" where
  "detect_ingredients decode image_bytes st =
     (if image_bytes = [] then
        (Inl (DetectionModelNotReady ''Image payload was empty.''), st)
      else if \<not> model_ready (self st) then
        (Inl (DetectionModelNotReady
                (error_or (primary_model_error (self st)) (secondary_model_error (self st))
                   ''No detection models are available.'')), st)
      else
        (case decode image_bytes of
           Inl msg \<Rightarrow> (Inl (DetectionModelNotReady (''Failed to decode image: '' @ msg)), st)
         | Inr img \<Rightarrow>
             if use_ensemble (self st) \<and> primary_model_ready (self st)
                \<and> secondary_model_ready (self st)
             then detect_with_ensemble img st
             else if primary_model (self st) \<noteq> None then
               (case detect_with_model Primary (primary_model (self st))
                       (primary_class_names (self st)) img st of
                  (Inr dets, st1) \<Rightarrow> (Inr dets, st1)
                | (Inl e, st1) \<Rightarrow> fallback_to_secondary img st1)
             else fallback_to_secondary img st))"

record both_models =
  model1 :: "grouped list"
  model2 :: "grouped list"

text \<open>One slot of \<^verbatim>\<open>detect_ingredients_both_models\<close>: the list it leaves under its
  key of the result.\<close>

definition run_slot_grouped ::
  "slot \<Rightarrow> 'img yolo option \<Rightarrow> (int \<rightharpoonup> string) \<Rightarrow> 'img \<Rightarrow> 'img state
     \<Rightarrow> grouped list \<times> 'img state" where
  "run_slot_grouped sl model class_names img st =
     (if model \<noteq> None then
        (case detect_with_model sl model class_names img st of
           (Inr raw_detections, st1) \<Rightarrow> (group_and_count_detections raw_detections, st1)
         | (Inl e, st1) \<Rightarrow> ([], st1))
      else ([], st))"

definition detect_ingredients_both_models ::
  "(8 word list \<Rightarrow> string + 'img) \<Rightarrow> 8 word list \<Rightarrow> 'img state
     \<Rightarrow> (exn + both_models) \<times> 'img state" where
  "detect_ingredients_both_models decode image_bytes st =
     (if image_bytes = [] then
        (Inl (DetectionModelNotReady ''Image payload was empty.''), st)
      else if \<not> primary_model_ready (self st) \<and> \<not> secondary_model_ready (self st) then
        (Inl (DetectionModelNotReady
                (error_or (primary_model_error (self st)) (secondary_model_error (self st))
                   ''No detection models are available.'')), st)
      else
        (case decode image_bytes of
           Inl msg \<Rightarrow> (Inl (DetectionModelNotReady (''Failed to decode image: '' @ msg)), st)
         | Inr img \<Rightarrow>
             (case run_slot_grouped Primary (primary_model (self st))
                     (primary_class_names (self st)) img st of
                (r1, st1) \<Rightarrow>
                  (case run_slot_grouped Secondary (secondary_model (self st1))
                          (secondary_class_names (self st1)) img st1 of
                     (r2, st2) \<Rightarrow> (Inr \<lparr>model1 = r1, model2 = r2\<rparr>, st2)))))"

subsection \<open>What the specification says of the side-by-side run\<close>

text \<open>The counted list of one slot (empty when the slot is unbound or its call raises),
  and the calls that a run makes to a slot.\<close>

definition counted_or_empty :: "'img yolo option \<Rightarrow> (int \<rightharpoonup> string) \<Rightarrow> 'img \<Rightarrow> grouped list" where
  "counted_or_empty model class_names img =
     (case model of
        None \<Rightarrow> []
      | Some m \<Rightarrow>
          (case m img of
             Inl msg \<Rightarrow> []
           | Inr results \<Rightarrow>
               group_and_count_detections (detections_of_results class_names results)))"

definition attempted :: "slot \<Rightarrow> 'img yolo option \<Rightarrow> slot list" where
  "attempted sl model = (case model of None \<Rightarrow> [] | Some m \<Rightarrow> [sl])"

section \<open>Example inputs\<close>

text \<open>The detection that \<^verbatim>\<open>_detect_with_model\<close> builds for a label, a confidence and
  a box.\<close>

definition det :: "string \<Rightarrow> real \<Rightarrow> real list \<Rightarrow> detection" where
  "det label c b =
     \<lparr>name = label, category = category_from_label label, quantity = 1,
      confidence = c, bbox = b\<rparr>"

definition fridge_detections :: "detection list" where
  "fridge_detections =
     [det ''tomato'' 0.8 [0, 0, 10, 10], det ''Tomato '' 0.6 [20, 20, 30, 30],
      det ''egg'' 0.99 [5, 5, 8, 8]]"

definition egg_primary :: detection where
  "egg_primary = det ''egg'' 0.95 [0, 0, 10, 10]"

definition egg_secondary :: detection where
  "egg_secondary = det ''Egg'' 0.95 [1, 1, 11, 11]"

definition milk_secondary :: detection where
  "milk_secondary = det ''milk'' 0.5 [20, 20, 30, 30]"

text \<open>A decoder that accepts the payloads that start with the JPEG magic number, two
  models (one that sees two tomatoes and an egg, one that raises) and services built
  from them.\<close>

definition jpeg_decode :: "8 word list \<Rightarrow> string + unit" where
  "jpeg_decode b = (if take 2 b = [0xFF, 0xD8] then Inr () else Inl ''cannot identify image file'')"

definition jpeg_bytes :: "8 word list" where
  "jpeg_bytes = [0xFF, 0xD8, 0xFF, 0xE0]"

definition fridge_results :: "boxes option list" where
  "fridge_results =
     [Some \<lparr>cls = Some [0, 2, 1], conf = Some [0.8, 0.6, 0.99],
            xyxy = Some [[0, 0, 10, 10], [20, 20, 30, 30], [5, 5, 8, 8]]\<rparr>]"

definition sees_fridge :: "unit yolo" where
  "sees_fridge img = Inr fridge_results"

definition raises :: "string \<Rightarrow> unit yolo" where
  "raises msg img = Inl msg"

definition fridge_names :: "int \<rightharpoonup> string" where
  "fridge_names = map_of [(0, ''tomato''), (1, ''egg''), (2, ''Tomato '')]"

definition service_of :: "unit yolo option \<Rightarrow> unit yolo option \<Rightarrow> bool \<Rightarrow> unit detection_service" where
  "service_of p s e =
     \<lparr>primary_model = p, secondary_model = s,
      primary_class_names = fridge_names, secondary_class_names = fridge_names,
      primary_model_error = None, secondary_model_error = None, use_ensemble = e\<rparr>"

definition unloaded_service :: "unit detection_service" where
  "unloaded_service =
     \<lparr>primary_model = None, secondary_model = None,
      primary_class_names = Map.empty, secondary_class_names = Map.empty,
      primary_model_error = Some ''Model weights not found at models/best.pt'',
      secondary_model_error = None, use_ensemble = False\<rparr>"

definition fresh :: "unit detection_service \<Rightarrow> unit state" where
  "fresh s = \<lparr>self = s, calls = []\<rparr>"

text \<open>Two models for an ensemble run, each with its own label map: the primary one
  sees an egg, the secondary one the same egg (labelled \<^verbatim>\<open>"Egg"\<close>, with the same
  confidence) and milk.\<close>

definition egg_results :: "boxes option list" where
  "egg_results = [Some \<lparr>cls = Some [0], conf = Some [0.95], xyxy = Some [[0, 0, 10, 10]]\<rparr>]"

definition egg_milk_results :: "boxes option list" where
  "egg_milk_results =
     [Some \<lparr>cls = Some [0, 1], conf = Some [0.95, 0.5],
            xyxy = Some [[1, 1, 11, 11], [20, 20, 30, 30]]\<rparr>]"

definition sees_egg :: "unit yolo" where
  "sees_egg img = Inr egg_results"

definition sees_egg_milk :: "unit yolo" where
  "sees_egg_milk img = Inr egg_milk_results"

definition ensemble_service :: "unit detection_service" where
  "ensemble_service =
     \<lparr>primary_model = Some sees_egg, secondary_model = Some sees_egg_milk,
      primary_class_names = map_of [(0, ''egg'')],
      secondary_class_names = map_of [(0, ''Egg''), (1, ''milk'')],
      primary_model_error = None, secondary_model_error = None, use_ensemble = True\<rparr>"

section \<open>Facts about strings\<close>

lemma starts_with_append: "starts_with sub s \<longleftrightarrow> (\<exists>r. s = sub @ r)"
  by (induction sub s rule: starts_with.induct) auto

lemma substr_iff: "substr sub s \<longleftrightarrow> (\<exists>p r. s = p @ sub @ r)"
proof (induction s)
  case Nil
  then show ?case by auto
next
  case (Cons d ds)
  show ?case
  proof
    assume "substr sub (d # ds)"
    then consider "starts_with sub (d # ds)" | "substr sub ds" by auto
    then show "\<exists>p r. d # ds = p @ sub @ r"
    proof cases
      case 1
      then obtain r where "d # ds = sub @ r" using starts_with_append by blast
      then have "d # ds = [] @ sub @ r" by simp
      then show ?thesis by blast
    next
      case 2
      then obtain p r where "ds = p @ sub @ r" using Cons.IH by blast
      then have "d # ds = (d # p) @ sub @ r" by simp
      then show ?thesis by blast
    qed
  next
    assume "\<exists>p r. d # ds = p @ sub @ r"
    then obtain p r where pr: "d # ds = p @ sub @ r" by blast
    show "substr sub (d # ds)"
    proof (cases p)
      case Nil
      with pr have "starts_with sub (d # ds)" using starts_with_append by auto
      then show ?thesis by simp
    next
      case (Cons e p')
      with pr have "ds = p' @ sub @ r" by simp
      then have "substr sub ds" using Cons.IH by blast
      then show ?thesis by simp
    qed
  qed
qed

lemma partial_match_iff: "partial_match vs l \<longleftrightarrow> list_ex (\<lambda>v. substr v l) vs"
  by (induction vs) auto

section \<open>The classifier's cascade\<close>

lemma category_from_label_cascade:
  "category_from_label label = categorize_cascade (strip (lower label))"
  unfolding category_from_label_def categorize_cascade_def exact_tier_def substring_tier_def
    fragment_tier_def vocabularies_def fragment_rules_def Let_def
  by (simp add: partial_match_iff)

lemma fragment_tier_berry: "substr ''berry'' l \<Longrightarrow> fragment_tier l = Some ''fruits''"
  by (simp add: fragment_tier_def fragment_rules_def)

text \<open>
  C6, as the code has it. \<^verbatim>\<open>_category_from_label\<close> lowercases the label and strips
  the whitespace around it, and is the cascade of the specification on the result: the exact tier (the five vocabularies in order, then the one-entry
  vocabulary \<^const>\<open>other\<close>), then substring containment over the five vocabularies in
  order, then the fragment rules, then \<^verbatim>\<open>"uncategorized"\<close>. So an exact hit decides
  whatever the later tiers would say, a substring hit decides whenever there is no exact
  hit, and a label with neither that contains \<^verbatim>\<open>"berry"\<close> gets \<^verbatim>\<open>"fruits"\<close> from the
  fragment tier. \<^verbatim>\<open>"Strawberry"\<close> and \<^verbatim>\<open>"Sweet Potato"\<close> are exact hits.
\<close>

theorem category_from_label_tiers:
  "category_from_label label = categorize_cascade (strip (lower label))
   \<and> (\<forall>c. exact_tier (strip (lower label)) = Some c \<longrightarrow> category_from_label label = c)
   \<and> (\<forall>c. exact_tier (strip (lower label)) = None
          \<and> substring_tier (strip (lower label)) = Some c \<longrightarrow> category_from_label label = c)
   \<and> (exact_tier (strip (lower label)) = None \<and> substring_tier (strip (lower label)) = None
        \<and> substr ''berry'' (strip (lower label))
        \<longrightarrow> fragment_tier (strip (lower label)) = Some ''fruits''
            \<and> category_from_label label = ''fruits'')
   \<and> exact_tier (strip (lower ''Strawberry'')) = Some ''fruits''
   \<and> category_from_label ''Strawberry'' = ''fruits''
   \<and> exact_tier (strip (lower ''Sweet Potato'')) = Some ''vegetables''
   \<and> category_from_label ''Sweet Potato'' = ''vegetables''"
proof -
  have e1: "exact_tier (strip (lower ''Strawberry'')) = Some ''fruits''"
    by code_simp
  have e2: "exact_tier (strip (lower ''Sweet Potato'')) = Some ''vegetables''"
    by code_simp
  have c: "\<And>x. category_from_label x = categorize_cascade (strip (lower x))"
    by (rule category_from_label_cascade)
  have exact: "\<And>x k. exact_tier (strip (lower x)) = Some k \<Longrightarrow> category_from_label x = k"
    by (simp add: c categorize_cascade_def)
  have sub: "\<And>k. exact_tier (strip (lower label)) = None
      \<Longrightarrow> substring_tier (strip (lower label)) = Some k \<Longrightarrow> category_from_label label = k"
    by (simp add: c categorize_cascade_def)
  have frag: "exact_tier (strip (lower label)) = None
      \<Longrightarrow> substring_tier (strip (lower label)) = None
      \<Longrightarrow> substr ''berry'' (strip (lower label))
      \<Longrightarrow> fragment_tier (strip (lower label)) = Some ''fruits''
          \<and> category_from_label label = ''fruits''"
    by (simp add: c categorize_cascade_def fragment_tier_berry)
  from e1 have s1: "category_from_label ''Strawberry'' = ''fruits''" by (rule exact)
  from e2 have s2: "category_from_label ''Sweet Potato'' = ''vegetables''" by (rule exact)
  show ?thesis
    using c [of label] exact [of label] sub frag e1 e2 s1 s2 by blast
qed

theorem category_from_label_tiers_witness:
  "exact_tier (strip (lower ''Potato'')) = Some ''vegetables''
   \<and> category_from_label ''Potato'' = ''vegetables''
   \<and> exact_tier (strip (lower ''Pineapple'')) = None
   \<and> substring_tier (strip (lower ''Pineapple'')) = Some ''fruits''
   \<and> category_from_label ''Pineapple'' = ''fruits''
   \<and> exact_tier (strip (lower ''Raspberry'')) = None
   \<and> substring_tier (strip (lower ''Raspberry'')) = None
   \<and> substr ''berry'' (strip (lower ''Raspberry''))
   \<and> category_from_label ''Raspberry'' = ''fruits''"
proof -
  have a: "exact_tier (strip (lower ''Potato'')) = Some ''vegetables''"
    by code_simp
  have b: "exact_tier (strip (lower ''Pineapple'')) = None"
    "substring_tier (strip (lower ''Pineapple'')) = Some ''fruits''"
    by code_simp+
  have d: "exact_tier (strip (lower ''Raspberry'')) = None"
    "substring_tier (strip (lower ''Raspberry'')) = None"
    "substr ''berry'' (strip (lower ''Raspberry''))"
    by code_simp+
  from a category_from_label_tiers [of "''Potato''"]
  have a': "category_from_label ''Potato'' = ''vegetables''" by blast
  from b category_from_label_tiers [of "''Pineapple''"]
  have b': "category_from_label ''Pineapple'' = ''fruits''" by blast
  from d category_from_label_tiers [of "''Raspberry''"]
  have d': "category_from_label ''Raspberry'' = ''fruits''" by blast
  from a a' b b' d d' show ?thesis by blast
qed


text \<open>
  The claim as the specification states it matches the lowercased label, with its
  surrounding whitespace, against the vocabularies. The label \<^verbatim>\<open>" chocolate"\<close> is then
  no exact hit, holds no entry of the five vocabularies of the substring tier and no
  fragment, and would be \<^verbatim>\<open>"uncategorized"\<close>; the code strips it and answers
  \<^verbatim>\<open>"other"\<close> from the exact tier.
\<close>

theorem category_from_label_strip_counterexample:
  "category_from_label '' chocolate'' = ''other''
   \<and> exact_tier (lower '' chocolate'') = None
   \<and> substring_tier (lower '' chocolate'') = None
   \<and> fragment_tier (lower '' chocolate'') = None
   \<and> categorize_cascade (lower '' chocolate'') = ''uncategorized''"
  by code_simp

section \<open>Ordered dicts and the two folds\<close>

lemma first_keys_snoc:
  "first_keys (ks @ [k]) = (if k \<in> set ks then first_keys ks else first_keys ks @ [k])"
  by (simp add: first_keys_def)

lemma set_first_keys: "set (first_keys ks) = set ks"
  by (simp add: first_keys_def)

lemma distinct_first_keys: "distinct (first_keys ks)"
  by (simp add: first_keys_def)

lemma first_keys_Nil: "first_keys [] = []"
  by (simp add: first_keys_def)

lemma map_of_keyed: "map_of (map (\<lambda>k. (k, f k)) ks) k = (if k \<in> set ks then Some (f k) else None)"
  by (induction ks) auto

lemma dict_set_keyed:
  "distinct ks \<Longrightarrow> dict_set k v (map (\<lambda>k'. (k', f k')) ks) =
     map (\<lambda>k'. (k', (f(k := v)) k')) (if k \<in> set ks then ks else ks @ [k])"
  by (induction ks) auto

lemma summarize_single:
  "summarize [d] = \<lparr>name = name d, category = category d, quantity = 1,
                    confidence = confidence d, bbox = bbox d, unit = ''item''\<rparr>"
  by (simp add: summarize_def)

lemma summarize_snoc:
  assumes "ds \<noteq> []"
  shows "summarize (ds @ [d]) =
           (summarize ds)\<lparr>quantity := quantity (summarize ds) + 1,
                          confidence := max (confidence (summarize ds)) (confidence d)\<rparr>"
proof -
  have "Max (confidence ` set (ds @ [d])) = max (confidence d) (Max (confidence ` set ds))"
    using assms by simp
  then show ?thesis
    using assms by (simp add: summarize_def max.commute)
qed

lemma group_step_key:
  "group_step g d =
     (case map_of g (group_key d) of
        Some old \<Rightarrow>
          dict_set (group_key d)
            (old\<lparr>quantity := quantity old + 1,
                 confidence := max (confidence old) (confidence d)\<rparr>) g
      | None \<Rightarrow> dict_set (group_key d) (summarize [d]) g)"
  by (simp add: group_step_def group_key_def Let_def summarize_single split: option.split)

lemma foldl_group_step:
  "foldl group_step [] ds =
     map (\<lambda>k. (k, summarize (filter (\<lambda>d. group_key d = k) ds))) (first_keys (map group_key ds))"
proof (induction ds rule: rev_induct)
  case Nil
  then show ?case by (simp add: first_keys_Nil)
next
  case (snoc d ds)
  let ?F = "\<lambda>xs k. summarize (filter (\<lambda>d. group_key d = k) xs)"
  let ?ks = "first_keys (map group_key ds)"
  let ?k = "group_key d"
  show ?case
  proof (cases "?k \<in> set ?ks")
    case True
    then have ne: "filter (\<lambda>x. group_key x = ?k) ds \<noteq> []"
      by (auto simp: set_first_keys filter_empty_conv)
    have "foldl group_step [] (ds @ [d]) =
            map (\<lambda>k'. (k', ((?F ds)(?k := ?F (ds @ [d]) ?k)) k')) ?ks"
      using True ne
      by (simp add: snoc.IH group_step_key map_of_keyed dict_set_keyed distinct_first_keys summarize_snoc)
    also have "\<dots> = map (\<lambda>k'. (k', ?F (ds @ [d]) k')) ?ks"
      by (rule map_cong) auto
    finally show ?thesis
      using True by (simp add: first_keys_snoc set_first_keys)
  next
    case False
    then have "?k \<notin> group_key ` set ds"
      by (simp add: set_first_keys)
    then have "\<forall>x\<in>set ds. group_key x \<noteq> ?k"
      by (metis imageI)
    then have e: "filter (\<lambda>x. group_key x = ?k) ds = []"
      by (simp add: filter_empty_conv)
    have "foldl group_step [] (ds @ [d]) =
            map (\<lambda>k'. (k', ((?F ds)(?k := ?F (ds @ [d]) ?k)) k')) (?ks @ [?k])"
      using False e
      by (simp add: snoc.IH group_step_key map_of_keyed dict_set_keyed distinct_first_keys)
    also have "\<dots> = map (\<lambda>k'. (k', ?F (ds @ [d]) k')) (?ks @ [?k])"
      by (rule map_cong) auto
    finally show ?thesis
      using False by (simp add: first_keys_snoc set_first_keys)
  qed
qed


lemma split_at_last:
  "x \<notin> set c1 \<Longrightarrow> x \<notin> set c2 \<Longrightarrow> a @ x # c1 = b @ x # c2 \<Longrightarrow> a = b \<and> c1 = c2"
proof (induction a arbitrary: b)
  case Nil
  then show ?case by (cases b) auto
next
  case (Cons z a)
  show ?case
  proof (cases b)
    case Nil
    with Cons.prems have "c2 = a @ x # c1" by simp
    with Cons.prems show ?thesis by simp
  next
    case (Cons y b')
    with Cons.prems have "z = y" "a @ x # c1 = b' @ x # c2" by simp_all
    with Cons.IH [of b'] Cons.prems Cons show ?thesis by simp
  qed
qed

lemma key_split:
  assumes "CHR ''_'' \<notin> set c1" "CHR ''_'' \<notin> set c2"
  shows "n1 @ ''_'' @ c1 = n2 @ ''_'' @ c2 \<longleftrightarrow> n1 = n2 \<and> c1 = c2"
  using split_at_last [OF assms, of n1 n2] by auto

lemma first_hit_fst: "first_hit hit tbl = Some c \<Longrightarrow> c \<in> fst ` set tbl"
proof (induction tbl)
  case Nil then show ?case by simp
next
  case (Cons p tbl)
  obtain cat entries where p: "p = (cat, entries)" by (cases p)
  show ?case
  proof (cases "hit entries")
    case True
    with Cons.prems p show ?thesis by simp
  next
    case False
    with Cons.prems p have "first_hit hit tbl = Some c" by simp
    then have "c \<in> fst ` set tbl" by (rule Cons.IH)
    then show ?thesis by simp
  qed
qed

lemma categorize_cascade_cases:
  "categorize_cascade l = ''uncategorized'' \<or> exact_tier l = Some (categorize_cascade l)
   \<or> substring_tier l = Some (categorize_cascade l)
   \<or> fragment_tier l = Some (categorize_cascade l)"
  by (simp add: categorize_cascade_def split: option.split)

lemma category_from_label_no_underscore: "CHR ''_'' \<notin> set (category_from_label label)"
proof -
  let ?l = "strip (lower label)"
  let ?c = "categorize_cascade ?l"
  have e: "exact_tier ?l = Some c \<Longrightarrow> CHR ''_'' \<notin> set c" for c
    unfolding exact_tier_def vocabularies_def by (drule first_hit_fst) auto
  have s: "substring_tier ?l = Some c \<Longrightarrow> CHR ''_'' \<notin> set c" for c
    unfolding substring_tier_def vocabularies_def by (drule first_hit_fst) auto
  have f: "fragment_tier ?l = Some c \<Longrightarrow> CHR ''_'' \<notin> set c" for c
    unfolding fragment_tier_def fragment_rules_def by (drule first_hit_fst) auto
  consider "?c = ''uncategorized''" | "exact_tier ?l = Some ?c" | "substring_tier ?l = Some ?c"
    | "fragment_tier ?l = Some ?c"
    using categorize_cascade_cases [of ?l] by blast
  then have "CHR ''_'' \<notin> set ?c"
  proof cases
    case 1
    then show ?thesis by simp
  next
    case 2
    then show ?thesis by (rule e)
  next
    case 3
    then show ?thesis by (rule s)
  next
    case 4
    then show ?thesis by (rule f)
  qed
  then show ?thesis by (simp add: category_from_label_cascade)
qed

lemma sum_indicator:
  "distinct ks \<Longrightarrow> sum_list (map (\<lambda>k. if a = k then 1 else 0) ks) = (if a \<in> set ks then 1 else (0::int))"
  by (induction ks) auto

lemma sum_filter_lengths:
  "distinct ks \<Longrightarrow> f ` set xs \<subseteq> set ks
     \<Longrightarrow> sum_list (map (\<lambda>k. int (length (filter (\<lambda>d. f d = k) xs))) ks) = int (length xs)"
proof (induction xs)
  case Nil
  then show ?case by simp
next
  case (Cons x xs)
  have "sum_list (map (\<lambda>k. int (length (filter (\<lambda>d. f d = k) (x # xs)))) ks) =
        sum_list (map (\<lambda>k. (if f x = k then 1 else 0) + int (length (filter (\<lambda>d. f d = k) xs))) ks)"
    by (rule arg_cong [where f = sum_list], rule map_cong) auto
  also have "\<dots> = sum_list (map (\<lambda>k. if f x = k then 1 else 0) ks)
                  + sum_list (map (\<lambda>k. int (length (filter (\<lambda>d. f d = k) xs))) ks)"
    by (simp add: sum_list_addf)
  also have "\<dots> = 1 + int (length xs)"
    using Cons by (simp add: sum_indicator)
  finally show ?case by simp
qed

lemma group_and_count_eq:
  "group_and_count_detections dets =
     map (\<lambda>k. summarize (filter (\<lambda>d. group_key d = k) dets)) (first_keys (map group_key dets))"
  by (simp add: group_and_count_detections_def foldl_group_step comp_def)


lemma best_single: "best [d] = d"
  by (simp add: best_def)

lemma best_in:
  assumes "ds \<noteq> []"
  shows "best ds \<in> set ds \<and> confidence (best ds) = Max (confidence ` set ds)"
proof -
  have "Max (confidence ` set ds) \<in> confidence ` set ds"
    using assms by (intro Max_in) auto
  then have "filter (\<lambda>d. confidence d = Max (confidence ` set ds)) ds \<noteq> []"
    by (auto simp: filter_empty_conv)
  then have "hd (filter (\<lambda>d. confidence d = Max (confidence ` set ds)) ds)
               \<in> set (filter (\<lambda>d. confidence d = Max (confidence ` set ds)) ds)"
    by (rule hd_in_set)
  then show ?thesis by (simp add: best_def)
qed

lemma best_snoc:
  assumes "ds \<noteq> []"
  shows "best (ds @ [d]) = (if confidence d > confidence (best ds) then d else best ds)"
proof -
  let ?M = "Max (confidence ` set ds)"
  have M': "Max (confidence ` set (ds @ [d])) = max (confidence d) ?M"
    using assms by simp
  have le: "\<And>x. x \<in> set ds \<Longrightarrow> confidence x \<le> ?M"
    by simp
  have bM: "confidence (best ds) = ?M" using best_in [OF assms] by simp
  show ?thesis
  proof (cases "confidence d > ?M")
    case True
    have "\<forall>x\<in>set ds. confidence x \<noteq> confidence d"
    proof
      fix x assume "x \<in> set ds"
      then have "confidence x \<le> ?M" by (rule le)
      with True show "confidence x \<noteq> confidence d" by simp
    qed
    then have "filter (\<lambda>x. confidence x = confidence d) ds = []"
      by (simp add: filter_empty_conv)
    with True show ?thesis
      unfolding best_def M' bM [unfolded best_def] by (simp add: max_def)
  next
    case False
    then have m: "max (confidence d) ?M = ?M" by (simp add: max_def)
    have ne: "filter (\<lambda>x. confidence x = ?M) ds \<noteq> []"
      using best_in [OF assms] by (auto simp: filter_empty_conv)
    have "best (ds @ [d]) = hd (filter (\<lambda>x. confidence x = ?M) ds @ filter (\<lambda>x. confidence x = ?M) [d])"
      unfolding best_def M' m by simp
    also have "\<dots> = best ds"
      using ne by (simp add: best_def)
    finally show ?thesis using False bM by simp
  qed
qed

lemma merge_step_key:
  "merge_step m d =
     (case map_of m (merge_key d) of
        None \<Rightarrow> dict_set (merge_key d) d m
      | Some stored \<Rightarrow>
          if confidence d > confidence stored then dict_set (merge_key d) d m else m)"
  by (simp add: merge_step_def merge_key_def Let_def split: option.split)

lemma foldl_merge_step:
  "foldl merge_step [] ds =
     map (\<lambda>k. (k, best (filter (\<lambda>d. merge_key d = k) ds))) (first_keys (map merge_key ds))"
proof (induction ds rule: rev_induct)
  case Nil
  then show ?case by (simp add: first_keys_Nil)
next
  case (snoc d ds)
  let ?F = "\<lambda>xs k. best (filter (\<lambda>d. merge_key d = k) xs)"
  let ?ks = "first_keys (map merge_key ds)"
  let ?k = "merge_key d"
  show ?case
  proof (cases "?k \<in> set ?ks")
    case True
    then have ne: "filter (\<lambda>x. merge_key x = ?k) ds \<noteq> []"
      by (auto simp: set_first_keys filter_empty_conv)
    have "foldl merge_step [] (ds @ [d]) =
            map (\<lambda>k'. (k', ((?F ds)(?k := ?F (ds @ [d]) ?k)) k')) ?ks"
      using True ne
      by (simp add: snoc.IH merge_step_key map_of_keyed dict_set_keyed distinct_first_keys best_snoc)
    also have "\<dots> = map (\<lambda>k'. (k', ?F (ds @ [d]) k')) ?ks"
      by (rule map_cong) auto
    finally show ?thesis
      using True by (simp add: first_keys_snoc set_first_keys)
  next
    case False
    then have "?k \<notin> merge_key ` set ds"
      by (simp add: set_first_keys)
    then have "\<forall>x\<in>set ds. merge_key x \<noteq> ?k"
      by (metis imageI)
    then have e: "filter (\<lambda>x. merge_key x = ?k) ds = []"
      by (simp add: filter_empty_conv)
    have "foldl merge_step [] (ds @ [d]) =
            map (\<lambda>k'. (k', ((?F ds)(?k := ?F (ds @ [d]) ?k)) k')) (?ks @ [?k])"
      using False e
      by (simp add: snoc.IH merge_step_key map_of_keyed dict_set_keyed distinct_first_keys best_single)
    also have "\<dots> = map (\<lambda>k'. (k', ?F (ds @ [d]) k')) (?ks @ [?k])"
      by (rule map_cong) auto
    finally show ?thesis
      using False by (simp add: first_keys_snoc set_first_keys)
  qed
qed

lemma merge_detections_eq:
  "merge_detections dets =
     map (\<lambda>k. best (filter (\<lambda>d. merge_key d = k) dets)) (first_keys (map merge_key dets))"
  by (simp add: merge_detections_def foldl_merge_step comp_def)


lemma dict_set_absent: "map_of m k = None \<Longrightarrow> dict_set k v m = m @ [(k, v)]"
  by (induction m) (auto split: if_splits)

lemma dict_set_present:
  "map_of m k = Some old \<Longrightarrow> map fst (dict_set k v m) = map fst m \<and> map_of (dict_set k v m) k = Some v"
  by (induction m) (auto split: if_splits)

lemma best_key:
  assumes "k \<in> merge_key ` set xs"
  shows "best (filter (\<lambda>d. merge_key d = k) xs) \<in> set xs
         \<and> merge_key (best (filter (\<lambda>d. merge_key d = k) xs)) = k
         \<and> (\<forall>e \<in> set xs. merge_key e = k \<longrightarrow>
               confidence e \<le> confidence (best (filter (\<lambda>d. merge_key d = k) xs)))"
proof -
  let ?ys = "filter (\<lambda>d. merge_key d = k) xs"
  from assms have ne: "?ys \<noteq> []" by (auto simp: filter_empty_conv)
  from best_in [OF ne] have b: "best ?ys \<in> set ?ys" and c: "confidence (best ?ys) = Max (confidence ` set ?ys)"
    by simp_all
  have "confidence e \<le> confidence (best ?ys)" if "e \<in> set xs" "merge_key e = k" for e
  proof -
    from that have "confidence e \<in> confidence ` set ?ys" by simp
    then have "confidence e \<le> Max (confidence ` set ?ys)" by (intro Max_ge) simp_all
    with c show ?thesis by simp
  qed
  with b show ?thesis by simp
qed

lemma best_prefers_first:
  assumes "e \<in> set p" "merge_key e = k"
    and "confidence e = confidence (best (filter (\<lambda>d. merge_key d = k) (p @ s)))"
  shows "best (filter (\<lambda>d. merge_key d = k) (p @ s)) \<in> set p"
proof -
  let ?ys = "filter (\<lambda>d. merge_key d = k) (p @ s)"
  let ?M = "Max (confidence ` set ?ys)"
  from assms(1,2) have ne: "?ys \<noteq> []" by (auto simp: filter_empty_conv)
  from best_in [OF ne] assms(3) have eM: "confidence e = ?M" by simp
  let ?hit = "\<lambda>d. confidence d = ?M"
  have "filter ?hit ?ys = filter ?hit (filter (\<lambda>d. merge_key d = k) p) @ filter ?hit (filter (\<lambda>d. merge_key d = k) s)"
    by simp
  moreover have "e \<in> set (filter ?hit (filter (\<lambda>d. merge_key d = k) p))"
    using assms(1,2) eM by simp
  then have pne: "filter ?hit (filter (\<lambda>d. merge_key d = k) p) \<noteq> []"
    by (metis empty_iff list.set(1))
  ultimately have "hd (filter ?hit ?ys) = hd (filter ?hit (filter (\<lambda>d. merge_key d = k) p))"
    by simp
  moreover have "hd (filter ?hit (filter (\<lambda>d. merge_key d = k) p)) \<in> set (filter ?hit (filter (\<lambda>d. merge_key d = k) p))"
    using pne by (rule hd_in_set)
  ultimately show ?thesis by (simp add: best_def)
qed

lemma merge_detections_keys:
  "map merge_key (merge_detections xs) = first_keys (map merge_key xs)"
proof -
  let ?ks = "first_keys (map merge_key xs)"
  let ?B = "\<lambda>k. best (filter (\<lambda>d. merge_key d = k) xs)"
  have "map (merge_key \<circ> ?B) ?ks = map id ?ks"
  proof (rule map_cong [OF refl])
    fix k
    assume "k \<in> set ?ks"
    then have "k \<in> merge_key ` set xs"
      by (simp only: set_first_keys list.set_map)
    from best_key [OF this] show "(merge_key \<circ> ?B) k = id k" by simp
  qed
  then show ?thesis by (simp add: merge_detections_eq)
qed

lemma merge_detections_elem:
  assumes "d \<in> set (merge_detections xs)"
  shows "d = best (filter (\<lambda>x. merge_key x = merge_key d) xs)
         \<and> d \<in> set xs
         \<and> (\<forall>e \<in> set xs. merge_key e = merge_key d \<longrightarrow> confidence e \<le> confidence d)"
proof -
  let ?ks = "first_keys (map merge_key xs)"
  from assms obtain k where k: "k \<in> set ?ks" and d: "d = best (filter (\<lambda>x. merge_key x = k) xs)"
    by (auto simp: merge_detections_eq)
  from k have "k \<in> merge_key ` set xs"
    by (simp only: set_first_keys list.set_map)
  from best_key [OF this] d show ?thesis by simp
qed


lemma merge_detections_first_best:
  "merge_detections (primary @ secondary) =
     map (\<lambda>k. best (filter (\<lambda>d. merge_key d = k) (primary @ secondary)))
       (first_keys (map merge_key (primary @ secondary)))
   \<and> map merge_key (merge_detections (primary @ secondary)) =
       first_keys (map merge_key (primary @ secondary))
   \<and> (\<forall>d \<in> set (merge_detections (primary @ secondary)).
         d \<in> set (primary @ secondary)
         \<and> (\<forall>e \<in> set (primary @ secondary).
               merge_key e = merge_key d \<longrightarrow> confidence e \<le> confidence d)
         \<and> ((\<exists>e \<in> set primary. merge_key e = merge_key d \<and> confidence e = confidence d)
               \<longrightarrow> d \<in> set primary))
   \<and> (\<forall>m d. map_of m (merge_key d) = None \<longrightarrow> merge_step m d = m @ [(merge_key d, d)])
   \<and> (\<forall>m d stored. map_of m (merge_key d) = Some stored \<and> confidence d > confidence stored \<longrightarrow>
         map fst (merge_step m d) = map fst m \<and> map_of (merge_step m d) (merge_key d) = Some d)
   \<and> (\<forall>m d stored. map_of m (merge_key d) = Some stored \<and> \<not> confidence d > confidence stored \<longrightarrow>
         merge_step m d = m)"
proof -
  define xs where "xs = primary @ secondary"
  have elems: "d \<in> set xs
         \<and> (\<forall>e \<in> set xs. merge_key e = merge_key d \<longrightarrow> confidence e \<le> confidence d)
         \<and> ((\<exists>e \<in> set primary. merge_key e = merge_key d \<and> confidence e = confidence d)
               \<longrightarrow> d \<in> set primary)"
    if "d \<in> set (merge_detections xs)" for d
  proof -
    from merge_detections_elem [OF that]
    have b: "d = best (filter (\<lambda>x. merge_key x = merge_key d) xs)" and 1: "d \<in> set xs"
      and 3: "\<forall>e \<in> set xs. merge_key e = merge_key d \<longrightarrow> confidence e \<le> confidence d"
      by simp_all
    have 4: "d \<in> set primary"
      if "\<exists>e \<in> set primary. merge_key e = merge_key d \<and> confidence e = confidence d"
    proof -
      from that obtain e where e: "e \<in> set primary" "merge_key e = merge_key d"
        and c: "confidence e = confidence d" by blast
      from c b have "confidence e =
          confidence (best (filter (\<lambda>x. merge_key x = merge_key d) (primary @ secondary)))"
        by (simp only: xs_def)
      with e have "best (filter (\<lambda>x. merge_key x = merge_key d) (primary @ secondary)) \<in> set primary"
        by (rule best_prefers_first)
      with b show ?thesis by (simp only: xs_def)
    qed
    from 1 3 4 show ?thesis by blast
  qed
  have s1: "\<forall>m d. map_of m (merge_key d) = None \<longrightarrow> merge_step m d = m @ [(merge_key d, d)]"
    by (simp add: merge_step_key dict_set_absent)
  have s2: "\<forall>m d stored. map_of m (merge_key d) = Some stored \<and> confidence d > confidence stored \<longrightarrow>
         map fst (merge_step m d) = map fst m \<and> map_of (merge_step m d) (merge_key d) = Some d"
    using dict_set_present by (fastforce simp: merge_step_key)
  have s3: "\<forall>m d stored. map_of m (merge_key d) = Some stored \<and> \<not> confidence d > confidence stored \<longrightarrow>
         merge_step m d = m"
    by (simp add: merge_step_key)
  from merge_detections_eq [of xs] merge_detections_keys [of xs] elems s1 s2 s3
  show ?thesis unfolding xs_def by blast
qed

section \<open>Grouping and counting: the claims\<close>

text \<open>
  C5, as the code has it. \<^verbatim>\<open>_group_and_count_detections\<close> keys its dict by the
  string \<^verbatim>\<open>strip(lower(name)) + "_" + category\<close> (\<^const>\<open>group_key\<close>). It returns one
  entry per distinct key, in the order of first occurrence. The entry of a key is the
  summary of the detections that have the key: name, category and box of the first one,
  unit \<^verbatim>\<open>"item"\<close>, the number of them as quantity, the greatest of their confidences
  as confidence. A step of the fold seeds a group at the end when the key is new, and
  otherwise adds 1 to the quantity of the group in place and takes the maximum of its
  confidence and the new one. Two detections whose categories hold no underscore have
  the same key exactly when their stripped lowercased names and their categories agree,
  and no category that \<^const>\<open>category_from_label\<close> returns holds an underscore.
\<close>

theorem group_and_count_detections_groups:
  "group_and_count_detections dets =
     map (\<lambda>k. summarize (filter (\<lambda>d. group_key d = k) dets)) (first_keys (map group_key dets))
   \<and> distinct (first_keys (map group_key dets))
   \<and> set (first_keys (map group_key dets)) = group_key ` set dets
   \<and> (\<forall>d1 d2. CHR ''_'' \<notin> set (category d1) \<and> CHR ''_'' \<notin> set (category d2) \<longrightarrow>
         (group_key d1 = group_key d2 \<longleftrightarrow>
            strip (lower (name d1)) = strip (lower (name d2)) \<and> category d1 = category d2))
   \<and> (\<forall>label. CHR ''_'' \<notin> set (category_from_label label))
   \<and> (\<forall>g d. map_of g (group_key d) = None \<longrightarrow>
         group_step g d =
           g @ [(group_key d,
                 \<lparr>name = name d, category = category d, quantity = 1,
                  confidence = confidence d, bbox = bbox d, unit = ''item''\<rparr>)])
   \<and> (\<forall>g d old. map_of g (group_key d) = Some old \<longrightarrow>
         map fst (group_step g d) = map fst g
         \<and> map_of (group_step g d) (group_key d) =
             Some (old\<lparr>quantity := quantity old + 1,
                        confidence := max (confidence old) (confidence d)\<rparr>))"
proof -
  have whole: "group_and_count_detections dets =
     map (\<lambda>k. summarize (filter (\<lambda>d. group_key d = k) dets)) (first_keys (map group_key dets))
   \<and> distinct (first_keys (map group_key dets))
   \<and> set (first_keys (map group_key dets)) = group_key ` set dets
   \<and> (\<forall>d1 d2. CHR ''_'' \<notin> set (category d1) \<and> CHR ''_'' \<notin> set (category d2) \<longrightarrow>
         (group_key d1 = group_key d2 \<longleftrightarrow>
            strip (lower (name d1)) = strip (lower (name d2)) \<and> category d1 = category d2))
   \<and> (\<forall>label. CHR ''_'' \<notin> set (category_from_label label))"
    using key_split
    by (simp add: group_and_count_eq distinct_first_keys set_first_keys group_key_def
        category_from_label_no_underscore)
  have seed: "\<forall>g d. map_of g (group_key d) = None \<longrightarrow>
         group_step g d =
           g @ [(group_key d,
                 \<lparr>name = name d, category = category d, quantity = 1,
                  confidence = confidence d, bbox = bbox d, unit = ''item''\<rparr>)]"
    by (simp add: group_step_key dict_set_absent summarize_single)
  have bump: "\<forall>g d old. map_of g (group_key d) = Some old \<longrightarrow>
         map fst (group_step g d) = map fst g
         \<and> map_of (group_step g d) (group_key d) =
             Some (old\<lparr>quantity := quantity old + 1,
                        confidence := max (confidence old) (confidence d)\<rparr>)"
    using dict_set_present by (fastforce simp: group_step_key)
  from whole seed bump show ?thesis by blast
qed

theorem group_and_count_detections_groups_witness:
  "group_and_count_detections fridge_detections =
     [\<lparr>name = ''tomato'', category = ''vegetables'', quantity = 2, confidence = 0.8,
       bbox = [0, 0, 10, 10], unit = ''item''\<rparr>,
      \<lparr>name = ''egg'', category = ''dairy'', quantity = 1, confidence = 0.99,
       bbox = [5, 5, 8, 8], unit = ''item''\<rparr>]
   \<and> CHR ''_'' \<notin> set (category (det ''tomato'' 0.8 [0, 0, 10, 10]))
   \<and> CHR ''_'' \<notin> set (category (det ''Tomato '' 0.6 [20, 20, 30, 30]))
   \<and> strip (lower (name (det ''tomato'' 0.8 [0, 0, 10, 10])))
       = strip (lower (name (det ''Tomato '' 0.6 [20, 20, 30, 30])))
   \<and> category (det ''tomato'' 0.8 [0, 0, 10, 10]) = category (det ''Tomato '' 0.6 [20, 20, 30, 30])
   \<and> group_key (det ''tomato'' 0.8 [0, 0, 10, 10]) = group_key (det ''Tomato '' 0.6 [20, 20, 30, 30])"
proof -
  note t = group_and_count_detections_groups [of fridge_detections]
  have rhs: "map (\<lambda>k. summarize (filter (\<lambda>d. group_key d = k) fridge_detections))
               (first_keys (map group_key fridge_detections)) =
     [\<lparr>name = ''tomato'', category = ''vegetables'', quantity = 2, confidence = 0.8,
       bbox = [0, 0, 10, 10], unit = ''item''\<rparr>,
      \<lparr>name = ''egg'', category = ''dairy'', quantity = 1, confidence = 0.99,
       bbox = [5, 5, 8, 8], unit = ''item''\<rparr>]"
    by code_simp
  have hyp: "CHR ''_'' \<notin> set (category (det ''tomato'' 0.8 [0, 0, 10, 10]))"
    "CHR ''_'' \<notin> set (category (det ''Tomato '' 0.6 [20, 20, 30, 30]))"
    "strip (lower (name (det ''tomato'' 0.8 [0, 0, 10, 10])))
       = strip (lower (name (det ''Tomato '' 0.6 [20, 20, 30, 30])))"
    "category (det ''tomato'' 0.8 [0, 0, 10, 10]) = category (det ''Tomato '' 0.6 [20, 20, 30, 30])"
    by code_simp+
  from t have "group_and_count_detections fridge_detections =
      map (\<lambda>k. summarize (filter (\<lambda>d. group_key d = k) fridge_detections))
        (first_keys (map group_key fridge_detections))"
    by (rule conjunct1)
  with rhs have out: "group_and_count_detections fridge_detections =
     [\<lparr>name = ''tomato'', category = ''vegetables'', quantity = 2, confidence = 0.8,
       bbox = [0, 0, 10, 10], unit = ''item''\<rparr>,
      \<lparr>name = ''egg'', category = ''dairy'', quantity = 1, confidence = 0.99,
       bbox = [5, 5, 8, 8], unit = ''item''\<rparr>]"
    by (rule trans [rotated])
  from t hyp have same: "group_key (det ''tomato'' 0.8 [0, 0, 10, 10])
                           = group_key (det ''Tomato '' 0.6 [20, 20, 30, 30])"
    by blast
  from out hyp same show ?thesis by blast
qed

text \<open>
  The claim as the specification states it keys the groups by the lowercased name and
  the category. The labels \<^verbatim>\<open>"egg"\<close> and \<^verbatim>\<open>" egg"\<close> differ after lowercasing and
  have the same category, yet their detections fall into one group of quantity 2.
\<close>

theorem group_and_count_detections_lowercase_counterexample:
  "(lower (name (det ''egg'' 0.9 [0, 0, 10, 10])), category (det ''egg'' 0.9 [0, 0, 10, 10]))
     \<noteq> (lower (name (det '' egg'' 0.8 [20, 20, 30, 30])),
         category (det '' egg'' 0.8 [20, 20, 30, 30]))
   \<and> group_and_count_detections [det ''egg'' 0.9 [0, 0, 10, 10], det '' egg'' 0.8 [20, 20, 30, 30]]
       = [\<lparr>name = ''egg'', category = ''dairy'', quantity = 2, confidence = 0.9,
           bbox = [0, 0, 10, 10], unit = ''item''\<rparr>]"
  by code_simp

text \<open>
  C10. The quantities of the groups add up to the number of detections given, every
  group has quantity at least 1, and no detections give no groups.
\<close>

theorem group_and_count_detections_total:
  "sum_list (map quantity (group_and_count_detections dets)) = int (length dets)
   \<and> (\<forall>g \<in> set (group_and_count_detections dets). 1 \<le> quantity g)
   \<and> group_and_count_detections [] = []"
proof -
  let ?ks = "first_keys (map group_key dets)"
  have "sum_list (map quantity (group_and_count_detections dets)) =
        sum_list (map (\<lambda>k. int (length (filter (\<lambda>d. group_key d = k) dets))) ?ks)"
    by (simp add: group_and_count_eq comp_def summarize_def)
  also have "\<dots> = int (length dets)"
    by (rule sum_filter_lengths) (simp_all add: distinct_first_keys set_first_keys)
  finally have total: "sum_list (map quantity (group_and_count_detections dets)) = int (length dets)" .
  have pos: "1 \<le> quantity g" if "g \<in> set (group_and_count_detections dets)" for g
  proof -
    from that obtain k where k: "k \<in> set ?ks"
      and g: "g = summarize (filter (\<lambda>d. group_key d = k) dets)"
      by (auto simp: group_and_count_eq)
    from k obtain d where "d \<in> set dets" "group_key d = k"
      by (auto simp: set_first_keys)
    then have "filter (\<lambda>d. group_key d = k) dets \<noteq> []"
      by (auto simp: filter_empty_conv)
    then have "1 \<le> int (length (filter (\<lambda>d. group_key d = k) dets))"
      by (cases "filter (\<lambda>d. group_key d = k) dets") simp_all
    with g show ?thesis by (simp add: summarize_def)
  qed
  have "group_and_count_detections [] = []"
    by (simp add: group_and_count_detections_def)
  with total pos show ?thesis by blast
qed

theorem group_and_count_detections_total_witness:
  "sum_list (map quantity (group_and_count_detections fridge_detections)) = 3
   \<and> group_and_count_detections fridge_detections \<noteq> []
   \<and> list_all (\<lambda>g. 1 \<le> quantity g) (group_and_count_detections fridge_detections)"
proof -
  have "length fridge_detections = 3"
    by (simp add: fridge_detections_def)
  moreover have "group_and_count_detections fridge_detections \<noteq> []"
    by code_simp
  ultimately show ?thesis
    using group_and_count_detections_total [of fridge_detections] by (simp add: list_all_iff)
qed


section \<open>Orchestration: the claims\<close>

lemma detect_with_model_raises:
  "m img = Inl msg \<Longrightarrow>
     detect_with_model sl (Some m) names img st
       = (Inl (PyException msg), st\<lparr>calls := calls st @ [sl]\<rparr>)"
  by (simp add: detect_with_model_def)

lemma detect_with_model_returns:
  "m img = Inr results \<Longrightarrow>
     detect_with_model sl (Some m) names img st
       = (Inr (detections_of_results names results), st\<lparr>calls := calls st @ [sl]\<rparr>)"
  by (simp add: detect_with_model_def)

lemma detect_with_model_self:
  "detect_with_model sl model names img st = (r, st') \<Longrightarrow> self st' = self st"
  by (auto simp: detect_with_model_def split: option.splits sum.splits)

lemma detect_with_ensemble_self:
  "detect_with_ensemble img st = (r, st') \<Longrightarrow> self st' = self st"
  unfolding detect_with_ensemble_def
  by (auto split: prod.splits sum.splits dest!: detect_with_model_self)

lemma fallback_to_secondary_self:
  "fallback_to_secondary img st = (r, st') \<Longrightarrow> self st' = self st"
  unfolding fallback_to_secondary_def
  by (auto split: prod.splits sum.splits if_splits dest!: detect_with_model_self)

lemma detect_ingredients_self:
  "detect_ingredients decode image_bytes st = (r, st') \<Longrightarrow> self st' = self st"
  unfolding detect_ingredients_def
  by (auto split: prod.splits sum.splits if_splits
      dest!: detect_with_model_self detect_with_ensemble_self fallback_to_secondary_self)

lemma fridge_classified:
  "detections_of_results fridge_names fridge_results = fridge_detections"
  by code_simp

lemma jpeg_decodes: "jpeg_bytes \<noteq> []" "jpeg_decode jpeg_bytes = Inr ()"
  by (simp_all add: jpeg_bytes_def jpeg_decode_def)

text \<open>
  C4. With both models returning, \<^verbatim>\<open>_detect_with_ensemble\<close> calls the primary model
  and then the secondary one, and returns the fold of \<^const>\<open>merge_step\<close> over the
  primary detections followed by the secondary ones, on a dict keyed by the lowercased
  name; in ensemble mode that is what \<^verbatim>\<open>detect_ingredients\<close> returns. A step inserts
  the detection at the end when its key is absent, replaces the stored detection in place
  when the new confidence is strictly greater, and changes nothing otherwise. So the
  result lists the keys in the order of their first occurrence, each with the first
  detection among those of greatest confidence for that key; when a primary detection
  has that confidence, the entry is a primary one.
\<close>

theorem detect_with_ensemble_keeps_first_best:
  assumes "primary_model (self st) = Some m1" and "m1 img = Inr results1"
    and "secondary_model (self st) = Some m2" and "m2 img = Inr results2"
    and "primary = detections_of_results (primary_class_names (self st)) results1"
    and "secondary = detections_of_results (secondary_class_names (self st)) results2"
  shows "detect_with_ensemble img st =
           (Inr (merge_detections (primary @ secondary)),
            st\<lparr>calls := calls st @ [Primary, Secondary]\<rparr>)
   \<and> (image_bytes \<noteq> [] \<and> decode image_bytes = Inr img \<and> use_ensemble (self st) \<longrightarrow>
        detect_ingredients decode image_bytes st =
          (Inr (merge_detections (primary @ secondary)),
           st\<lparr>calls := calls st @ [Primary, Secondary]\<rparr>))
   \<and> merge_detections (primary @ secondary) =
       map (\<lambda>k. best (filter (\<lambda>d. merge_key d = k) (primary @ secondary)))
         (first_keys (map merge_key (primary @ secondary)))
   \<and> map merge_key (merge_detections (primary @ secondary)) =
       first_keys (map merge_key (primary @ secondary))
   \<and> (\<forall>d \<in> set (merge_detections (primary @ secondary)).
         d \<in> set (primary @ secondary)
         \<and> (\<forall>e \<in> set (primary @ secondary).
               merge_key e = merge_key d \<longrightarrow> confidence e \<le> confidence d)
         \<and> ((\<exists>e \<in> set primary. merge_key e = merge_key d \<and> confidence e = confidence d)
               \<longrightarrow> d \<in> set primary))
   \<and> (\<forall>m d. map_of m (merge_key d) = None \<longrightarrow> merge_step m d = m @ [(merge_key d, d)])
   \<and> (\<forall>m d stored. map_of m (merge_key d) = Some stored \<and> confidence d > confidence stored \<longrightarrow>
         map fst (merge_step m d) = map fst m \<and> map_of (merge_step m d) (merge_key d) = Some d)
   \<and> (\<forall>m d stored. map_of m (merge_key d) = Some stored \<and> \<not> confidence d > confidence stored \<longrightarrow>
         merge_step m d = m)"
proof -
  have run: "detect_with_ensemble img st =
           (Inr (merge_detections (primary @ secondary)),
            st\<lparr>calls := calls st @ [Primary, Secondary]\<rparr>)"
    using assms
    by (simp add: detect_with_ensemble_def detect_with_model_returns)
  have entry: "image_bytes \<noteq> [] \<and> decode image_bytes = Inr img \<and> use_ensemble (self st) \<longrightarrow>
        detect_ingredients decode image_bytes st =
          (Inr (merge_detections (primary @ secondary)),
           st\<lparr>calls := calls st @ [Primary, Secondary]\<rparr>)"
    using assms(1,3) run
    by (simp add: detect_ingredients_def model_ready_def primary_model_ready_def
        secondary_model_ready_def)
  show ?thesis
    by (rule conjI [OF run conjI [OF entry merge_detections_first_best [of primary secondary]]])
qed

theorem detect_with_ensemble_keeps_first_best_witness:
  "detect_with_ensemble () (fresh ensemble_service) =
     (Inr [egg_primary, milk_secondary],
      \<lparr>self = ensemble_service, calls = [Primary, Secondary]\<rparr>)
   \<and> detect_ingredients jpeg_decode jpeg_bytes (fresh ensemble_service) =
     (Inr [egg_primary, milk_secondary],
      \<lparr>self = ensemble_service, calls = [Primary, Secondary]\<rparr>)
   \<and> merge_key egg_secondary = merge_key egg_primary
   \<and> confidence egg_secondary = confidence egg_primary
   \<and> egg_primary \<in> set (merge_detections ([egg_primary] @ [egg_secondary, milk_secondary]))
   \<and> egg_primary \<in> set [egg_primary]
   \<and> map_of [] (merge_key egg_primary) = (None :: detection option)
   \<and> merge_step [] egg_primary = [(merge_key egg_primary, egg_primary)]
   \<and> map_of [(merge_key egg_primary, egg_primary)] (merge_key egg_secondary) = Some egg_primary
   \<and> \<not> confidence egg_secondary > confidence egg_primary
   \<and> merge_step [(merge_key egg_primary, egg_primary)] egg_secondary
       = [(merge_key egg_primary, egg_primary)]"
proof -
  let ?st = "fresh ensemble_service"
  have p: "[egg_primary] = detections_of_results (primary_class_names (self ?st)) egg_results"
    by code_simp
  have s: "[egg_secondary, milk_secondary]
             = detections_of_results (secondary_class_names (self ?st)) egg_milk_results"
    by code_simp
  have h: "primary_model (self ?st) = Some sees_egg" "sees_egg () = Inr egg_results"
    "secondary_model (self ?st) = Some sees_egg_milk" "sees_egg_milk () = Inr egg_milk_results"
    by (simp_all add: fresh_def ensemble_service_def sees_egg_def sees_egg_milk_def)
  note t = detect_with_ensemble_keeps_first_best
    [where image_bytes = jpeg_bytes and decode = jpeg_decode, OF h p s]
  note run = t [THEN conjunct1]
  note entry = t [THEN conjunct2, THEN conjunct1]
  note eq = t [THEN conjunct2, THEN conjunct2, THEN conjunct1]
  note steps = t [THEN conjunct2, THEN conjunct2, THEN conjunct2, THEN conjunct2, THEN conjunct2]
  have ens: "use_ensemble (self ?st)"
    by (simp add: fresh_def ensemble_service_def)
  have post: "?st\<lparr>calls := calls ?st @ [Primary, Secondary]\<rparr>
                = \<lparr>self = ensemble_service, calls = [Primary, Secondary]\<rparr>"
    by (simp add: fresh_def)
  have rhs: "map (\<lambda>k. best (filter (\<lambda>d. merge_key d = k)
                    ([egg_primary] @ [egg_secondary, milk_secondary])))
               (first_keys (map merge_key ([egg_primary] @ [egg_secondary, milk_secondary])))
             = [egg_primary, milk_secondary]"
    by code_simp
  have tie: "merge_key egg_secondary = merge_key egg_primary"
    "confidence egg_secondary = confidence egg_primary"
    by code_simp+
  have absent: "map_of [] (merge_key egg_primary) = (None :: detection option)"
    by simp
  have present: "map_of [(merge_key egg_primary, egg_primary)] (merge_key egg_secondary)
                   = Some egg_primary"
    using tie by simp
  from eq rhs have out: "merge_detections ([egg_primary] @ [egg_secondary, milk_secondary])
      = [egg_primary, milk_secondary]"
    by (rule trans)
  from run have r: "detect_with_ensemble () ?st =
     (Inr [egg_primary, milk_secondary],
      \<lparr>self = ensemble_service, calls = [Primary, Secondary]\<rparr>)"
    by (simp only: out post)
  from entry jpeg_decodes ens
  have "detect_ingredients jpeg_decode jpeg_bytes ?st =
          (Inr (merge_detections ([egg_primary] @ [egg_secondary, milk_secondary])),
           ?st\<lparr>calls := calls ?st @ [Primary, Secondary]\<rparr>)"
    by blast
  then have e: "detect_ingredients jpeg_decode jpeg_bytes ?st =
     (Inr [egg_primary, milk_secondary],
      \<lparr>self = ensemble_service, calls = [Primary, Secondary]\<rparr>)"
    by (simp only: out post)
  from steps absent have ins: "merge_step [] egg_primary = [] @ [(merge_key egg_primary, egg_primary)]"
    by blast
  from steps present tie
  have keep: "merge_step [(merge_key egg_primary, egg_primary)] egg_secondary
                = [(merge_key egg_primary, egg_primary)]"
    by (metis less_irrefl)
  from out have mem: "egg_primary \<in> set (merge_detections ([egg_primary] @ [egg_secondary, milk_secondary]))"
    by simp
  from r e out tie mem absent ins present keep show ?thesis by simp
qed

text \<open>
  C1. With the ensemble flag off, a primary model that raises and a secondary model that
  returns, \<^verbatim>\<open>detect_ingredients\<close> returns the detections of the secondary model,
  classified with the secondary label map, after one call to each model. The payload is
  not empty: no payload that the real decoder accepts is, and the decoder is a parameter
  here.
\<close>

theorem detect_ingredients_falls_back:
  assumes "image_bytes \<noteq> []" and "decode image_bytes = Inr img"
    and "\<not> use_ensemble (self st)"
    and "primary_model (self st) = Some m1" and "m1 img = Inl msg"
    and "secondary_model (self st) = Some m2" and "m2 img = Inr results"
  shows "detect_ingredients decode image_bytes st =
           (Inr (detections_of_results (secondary_class_names (self st)) results),
            st\<lparr>calls := calls st @ [Primary, Secondary]\<rparr>)"
  using assms
  by (simp add: detect_ingredients_def model_ready_def fallback_to_secondary_def
      detect_with_model_raises detect_with_model_returns)

theorem detect_ingredients_falls_back_witness:
  "detect_ingredients jpeg_decode jpeg_bytes
     (fresh (service_of (Some (raises ''CUDA out of memory'')) (Some sees_fridge) False))
   = (Inr fridge_detections,
      \<lparr>self = service_of (Some (raises ''CUDA out of memory'')) (Some sees_fridge) False,
       calls = [Primary, Secondary]\<rparr>)"
proof -
  let ?st = "fresh (service_of (Some (raises ''CUDA out of memory'')) (Some sees_fridge) False)"
  have "detect_ingredients jpeg_decode jpeg_bytes ?st =
          (Inr (detections_of_results (secondary_class_names (self ?st)) fridge_results),
           ?st\<lparr>calls := calls ?st @ [Primary, Secondary]\<rparr>)"
    by (rule detect_ingredients_falls_back [where img = "()"
          and ?m1.0 = "raises ''CUDA out of memory''" and ?m2.0 = sees_fridge
          and msg = "''CUDA out of memory''"])
       (simp_all add: jpeg_decodes fresh_def service_of_def raises_def sees_fridge_def)
  then show ?thesis
    by (simp add: fresh_def service_of_def fridge_classified)
qed

text \<open>
  C2, as the code has it. In ensemble mode \<^verbatim>\<open>_detect_with_ensemble\<close> has no handler:
  the exception of the first model that raises leaves \<^verbatim>\<open>detect_ingredients\<close> as it
  is. When the primary model raises, the secondary model is not called; when the primary
  model returns and the secondary model raises, the primary detections are dropped.
\<close>

theorem detect_ingredients_ensemble_propagates:
  assumes "image_bytes \<noteq> []" and "decode image_bytes = Inr img"
    and "use_ensemble (self st)"
    and "primary_model (self st) = Some m1" and "secondary_model (self st) = Some m2"
  shows "(\<forall>msg. m1 img = Inl msg \<longrightarrow>
            detect_ingredients decode image_bytes st =
              (Inl (PyException msg), st\<lparr>calls := calls st @ [Primary]\<rparr>))
       \<and> (\<forall>results msg. m1 img = Inr results \<and> m2 img = Inl msg \<longrightarrow>
            detect_ingredients decode image_bytes st =
              (Inl (PyException msg), st\<lparr>calls := calls st @ [Primary, Secondary]\<rparr>))"
  using assms
  by (simp add: detect_ingredients_def model_ready_def primary_model_ready_def
      secondary_model_ready_def detect_with_ensemble_def
      detect_with_model_raises detect_with_model_returns)

theorem detect_ingredients_ensemble_propagates_witness:
  "detect_ingredients jpeg_decode jpeg_bytes
     (fresh (service_of (Some (raises ''boom'')) (Some sees_fridge) True))
   = (Inl (PyException ''boom''),
      \<lparr>self = service_of (Some (raises ''boom'')) (Some sees_fridge) True, calls = [Primary]\<rparr>)
   \<and> detect_ingredients jpeg_decode jpeg_bytes
     (fresh (service_of (Some sees_fridge) (Some (raises ''bang'')) True))
   = (Inl (PyException ''bang''),
      \<lparr>self = service_of (Some sees_fridge) (Some (raises ''bang'')) True,
       calls = [Primary, Secondary]\<rparr>)"
proof -
  let ?a = "fresh (service_of (Some (raises ''boom'')) (Some sees_fridge) True)"
  let ?b = "fresh (service_of (Some sees_fridge) (Some (raises ''bang'')) True)"
  have a: "\<forall>msg. raises ''boom'' () = Inl msg \<longrightarrow>
            detect_ingredients jpeg_decode jpeg_bytes ?a =
              (Inl (PyException msg), ?a\<lparr>calls := calls ?a @ [Primary]\<rparr>)"
    by (rule detect_ingredients_ensemble_propagates
          [where img = "()" and ?m1.0 = "raises ''boom''" and ?m2.0 = sees_fridge, THEN conjunct1])
       (simp_all add: jpeg_decodes fresh_def service_of_def)
  have b: "\<forall>results msg. sees_fridge () = Inr results \<and> raises ''bang'' () = Inl msg \<longrightarrow>
            detect_ingredients jpeg_decode jpeg_bytes ?b =
              (Inl (PyException msg), ?b\<lparr>calls := calls ?b @ [Primary, Secondary]\<rparr>)"
    by (rule detect_ingredients_ensemble_propagates
          [where img = "()" and ?m1.0 = sees_fridge and ?m2.0 = "raises ''bang''", THEN conjunct2])
       (simp_all add: jpeg_decodes fresh_def service_of_def)
  from a have "detect_ingredients jpeg_decode jpeg_bytes ?a =
      (Inl (PyException ''boom''), ?a\<lparr>calls := calls ?a @ [Primary]\<rparr>)"
    by (simp add: raises_def)
  moreover from b have "detect_ingredients jpeg_decode jpeg_bytes ?b =
      (Inl (PyException ''bang''), ?b\<lparr>calls := calls ?b @ [Primary, Secondary]\<rparr>)"
    by (simp add: raises_def sees_fridge_def)
  ultimately show ?thesis
    by (simp add: fresh_def)
qed

text \<open>
  The claim as the specification states it asks for an aggregated error that holds both
  underlying messages. With both models raising in ensemble mode, the error is the
  exception of the primary model alone, the secondary model is never called, and its
  message is no part of the error.
\<close>

theorem detect_ingredients_ensemble_counterexample:
  "fst (detect_ingredients jpeg_decode jpeg_bytes
          (fresh (service_of (Some (raises ''boom'')) (Some (raises ''bang'')) True)))
     = Inl (PyException ''boom'')
   \<and> calls (snd (detect_ingredients jpeg_decode jpeg_bytes
          (fresh (service_of (Some (raises ''boom'')) (Some (raises ''bang'')) True))))
     = [Primary]
   \<and> \<not> substr ''bang'' (message_of (PyException ''boom''))"
  by (simp add: detect_ingredients_def model_ready_def primary_model_ready_def
      secondary_model_ready_def detect_with_ensemble_def detect_with_model_def
      jpeg_decodes fresh_def service_of_def raises_def)


lemma error_or_first: "m \<noteq> [] \<Longrightarrow> error_or (Some m) b d = m"
  by (simp add: error_or_def)

lemma error_or_second:
  "a = None \<or> a = Some [] \<Longrightarrow> m \<noteq> [] \<Longrightarrow> error_or a (Some m) d = m"
  by (auto simp: error_or_def)

lemma error_or_otherwise:
  "a = None \<or> a = Some [] \<Longrightarrow> b = None \<or> b = Some [] \<Longrightarrow> error_or a b d = d"
  by (auto simp: error_or_def)

text \<open>
  C3, as the code has it. \<^verbatim>\<open>detect_ingredients\<close> tests the payload before it tests
  readiness. With neither slot bound and a payload that is not empty, it raises
  \<^verbatim>\<open>DetectionModelNotReady\<close> with the first non-empty of the two load errors, or
  \<^verbatim>\<open>"No detection models are available."\<close> when both are absent or empty; the state,
  and with it the log of model calls, is as before. An empty payload raises
  \<^verbatim>\<open>DetectionModelNotReady("Image payload was empty.")\<close> at once, whatever the slots
  hold. The last three conjuncts say what \<^const>\<open>error_or\<close> picks.
\<close>

theorem detect_ingredients_unavailable:
  "(primary_model (self st) = None \<and> secondary_model (self st) = None \<and> image_bytes \<noteq> [] \<longrightarrow>
      detect_ingredients decode image_bytes st =
        (Inl (DetectionModelNotReady
                (error_or (primary_model_error (self st)) (secondary_model_error (self st))
                   ''No detection models are available.'')), st))
   \<and> detect_ingredients decode [] st =
        (Inl (DetectionModelNotReady ''Image payload was empty.''), st)
   \<and> (\<forall>m. a = Some m \<and> m \<noteq> [] \<longrightarrow> error_or a b d = m)
   \<and> (\<forall>m. (a = None \<or> a = Some []) \<and> b = Some m \<and> m \<noteq> [] \<longrightarrow> error_or a b d = m)
   \<and> ((a = None \<or> a = Some []) \<and> (b = None \<or> b = Some []) \<longrightarrow> error_or a b d = d)"
proof -
  have 1: "primary_model (self st) = None \<and> secondary_model (self st) = None \<and> image_bytes \<noteq> [] \<longrightarrow>
      detect_ingredients decode image_bytes st =
        (Inl (DetectionModelNotReady
                (error_or (primary_model_error (self st)) (secondary_model_error (self st))
                   ''No detection models are available.'')), st)"
    by (simp add: detect_ingredients_def model_ready_def)
  have 2: "detect_ingredients decode [] st =
        (Inl (DetectionModelNotReady ''Image payload was empty.''), st)"
    by (simp add: detect_ingredients_def)
  from 1 2 error_or_first error_or_second error_or_otherwise show ?thesis
    by blast
qed

theorem detect_ingredients_unavailable_witness:
  "detect_ingredients jpeg_decode jpeg_bytes (fresh unloaded_service) =
     (Inl (DetectionModelNotReady ''Model weights not found at models/best.pt''),
      fresh unloaded_service)
   \<and> primary_model_error unloaded_service = Some ''Model weights not found at models/best.pt''
   \<and> primary_model (self (fresh unloaded_service)) = None
   \<and> secondary_model (self (fresh unloaded_service)) = None"
proof -
  note t = detect_ingredients_unavailable [of "fresh unloaded_service" jpeg_bytes jpeg_decode
      "primary_model_error unloaded_service" "secondary_model_error unloaded_service"
      "''No detection models are available.''"]
  have h: "primary_model (self (fresh unloaded_service)) = None"
    "secondary_model (self (fresh unloaded_service)) = None"
    "primary_model_error unloaded_service = Some ''Model weights not found at models/best.pt''"
    "''Model weights not found at models/best.pt'' \<noteq> []"
    "self (fresh unloaded_service) = unloaded_service"
    by (simp_all add: fresh_def unloaded_service_def)
  from t h jpeg_decodes(1)
  have "error_or (primary_model_error unloaded_service) (secondary_model_error unloaded_service)
          ''No detection models are available.'' = ''Model weights not found at models/best.pt''"
    by blast
  moreover from t h jpeg_decodes(1)
  have "detect_ingredients jpeg_decode jpeg_bytes (fresh unloaded_service) =
        (Inl (DetectionModelNotReady
                (error_or (primary_model_error (self (fresh unloaded_service)))
                   (secondary_model_error (self (fresh unloaded_service)))
                   ''No detection models are available.'')), fresh unloaded_service)"
    by blast
  ultimately show ?thesis using h by simp
qed

text \<open>
  The claim as the specification states it gives the load error as the message for every
  call on a service with neither slot bound. On the empty payload the message is that
  of the payload test, although a load error is recorded.
\<close>

theorem detect_ingredients_unavailable_counterexample:
  "primary_model unloaded_service = None \<and> secondary_model unloaded_service = None
   \<and> error_or (primary_model_error unloaded_service) (secondary_model_error unloaded_service)
        ''No detection models are available.'' = ''Model weights not found at models/best.pt''
   \<and> fst (detect_ingredients jpeg_decode [] (fresh unloaded_service))
        = Inl (DetectionModelNotReady ''Image payload was empty.'')
   \<and> ''Image payload was empty.'' \<noteq> ''Model weights not found at models/best.pt''"
  by (simp add: detect_ingredients_def unloaded_service_def error_or_def)

text \<open>
  C7, as the code has it. The primary model is bound and raises (the flag plays no part
  when the secondary slot is unbound). When the secondary model is bound and raises as
  well, \<^verbatim>\<open>detect_ingredients\<close> raises \<^verbatim>\<open>DetectionModelNotReady\<close> with
  \<^verbatim>\<open>"Both primary and secondary models failed. Last error: "\<close> followed by the message
  of the secondary model; the message of the primary model is only logged. When the
  secondary slot is unbound, it raises \<^verbatim>\<open>DetectionModelNotReady\<close> with the first
  non-empty load error or \<^verbatim>\<open>"Detection models are not available."\<close>, and the primary
  call is the only call made.
\<close>

theorem detect_ingredients_fallback_fails:
  assumes "image_bytes \<noteq> []" and "decode image_bytes = Inr img"
    and "primary_model (self st) = Some m1" and "m1 img = Inl msg1"
  shows "(\<forall>m2 msg2. \<not> use_ensemble (self st) \<and> secondary_model (self st) = Some m2
              \<and> m2 img = Inl msg2 \<longrightarrow>
            detect_ingredients decode image_bytes st =
              (Inl (DetectionModelNotReady
                      (''Both primary and secondary models failed. Last error: '' @ msg2)),
               st\<lparr>calls := calls st @ [Primary, Secondary]\<rparr>))
       \<and> (secondary_model (self st) = None \<longrightarrow>
            detect_ingredients decode image_bytes st =
              (Inl (DetectionModelNotReady
                      (error_or (primary_model_error (self st)) (secondary_model_error (self st))
                         ''Detection models are not available.'')),
               st\<lparr>calls := calls st @ [Primary]\<rparr>))"
  using assms
  by (simp add: detect_ingredients_def model_ready_def secondary_model_ready_def
      fallback_to_secondary_def detect_with_model_raises)

theorem detect_ingredients_fallback_fails_witness:
  "detect_ingredients jpeg_decode jpeg_bytes
     (fresh (service_of (Some (raises ''boom'')) (Some (raises ''bang'')) False))
   = (Inl (DetectionModelNotReady ''Both primary and secondary models failed. Last error: bang''),
      \<lparr>self = service_of (Some (raises ''boom'')) (Some (raises ''bang'')) False,
       calls = [Primary, Secondary]\<rparr>)
   \<and> detect_ingredients jpeg_decode jpeg_bytes
     (fresh (service_of (Some (raises ''boom'')) None False))
   = (Inl (DetectionModelNotReady ''Detection models are not available.''),
      \<lparr>self = service_of (Some (raises ''boom'')) None False, calls = [Primary]\<rparr>)"
proof -
  let ?a = "fresh (service_of (Some (raises ''boom'')) (Some (raises ''bang'')) False)"
  let ?b = "fresh (service_of (Some (raises ''boom'')) None False)"
  have a: "\<forall>m2 msg2. \<not> use_ensemble (self ?a) \<and> secondary_model (self ?a) = Some m2
              \<and> m2 () = Inl msg2 \<longrightarrow>
            detect_ingredients jpeg_decode jpeg_bytes ?a =
              (Inl (DetectionModelNotReady
                      (''Both primary and secondary models failed. Last error: '' @ msg2)),
               ?a\<lparr>calls := calls ?a @ [Primary, Secondary]\<rparr>)"
    by (rule detect_ingredients_fallback_fails
          [where img = "()" and ?m1.0 = "raises ''boom''" and ?msg1.0 = "''boom''", THEN conjunct1])
       (simp_all add: jpeg_decodes fresh_def service_of_def raises_def)
  have b: "secondary_model (self ?b) = None \<longrightarrow>
            detect_ingredients jpeg_decode jpeg_bytes ?b =
              (Inl (DetectionModelNotReady
                      (error_or (primary_model_error (self ?b)) (secondary_model_error (self ?b))
                         ''Detection models are not available.'')),
               ?b\<lparr>calls := calls ?b @ [Primary]\<rparr>)"
    by (rule detect_ingredients_fallback_fails
          [where img = "()" and ?m1.0 = "raises ''boom''" and ?msg1.0 = "''boom''", THEN conjunct2])
       (simp_all add: jpeg_decodes fresh_def service_of_def raises_def)
  have ha: "\<not> use_ensemble (self ?a)" "secondary_model (self ?a) = Some (raises ''bang'')"
    "raises ''bang'' () = Inl ''bang''"
    by (simp_all add: fresh_def service_of_def raises_def)
  from a ha have "detect_ingredients jpeg_decode jpeg_bytes ?a =
      (Inl (DetectionModelNotReady
              (''Both primary and secondary models failed. Last error: '' @ ''bang'')),
       ?a\<lparr>calls := calls ?a @ [Primary, Secondary]\<rparr>)"
    by blast
  moreover from b have "detect_ingredients jpeg_decode jpeg_bytes ?b =
      (Inl (DetectionModelNotReady
              (error_or (primary_model_error (self ?b)) (secondary_model_error (self ?b))
                 ''Detection models are not available.'')),
       ?b\<lparr>calls := calls ?b @ [Primary]\<rparr>)"
    by (simp add: fresh_def service_of_def)
  ultimately show ?thesis
    by (simp add: fresh_def service_of_def error_or_def)
qed

text \<open>
  The claim as the specification states it has the error embed both failures. The message
  of the primary model (here \<^verbatim>\<open>"boom"\<close>) occurs in neither error.
\<close>

theorem detect_ingredients_fallback_fails_counterexample:
  "fst (detect_ingredients jpeg_decode jpeg_bytes
          (fresh (service_of (Some (raises ''boom'')) (Some (raises ''bang'')) False)))
     = Inl (DetectionModelNotReady ''Both primary and secondary models failed. Last error: bang'')
   \<and> \<not> substr ''boom'' ''Both primary and secondary models failed. Last error: bang''
   \<and> fst (detect_ingredients jpeg_decode jpeg_bytes
          (fresh (service_of (Some (raises ''boom'')) None False)))
     = Inl (DetectionModelNotReady ''Detection models are not available.'')
   \<and> \<not> substr ''boom'' ''Detection models are not available.''"
  by (simp add: detect_ingredients_def model_ready_def primary_model_ready_def
      secondary_model_ready_def fallback_to_secondary_def detect_with_model_def
      jpeg_decodes fresh_def service_of_def raises_def error_or_def)

lemma run_slot_grouped_eq:
  "run_slot_grouped sl model names img st =
     (counted_or_empty model names img, st\<lparr>calls := calls st @ attempted sl model\<rparr>)"
  by (simp add: run_slot_grouped_def detect_with_model_def counted_or_empty_def attempted_def
      split: option.split sum.split)

text \<open>
  C8. With a payload that is not empty and decodes, and at least one slot bound,
  \<^verbatim>\<open>detect_ingredients_both_models\<close> returns both lists: the list of a slot is the
  grouped and counted detections of that slot's own model under that slot's own label
  map, or the empty list when the slot is unbound or its call raises. Each bound slot
  is called once, the primary first. With no slot bound it raises the same error as
  \<^verbatim>\<open>detect_ingredients\<close> does.
\<close>

theorem detect_ingredients_both_models_degrades:
  "(image_bytes \<noteq> [] \<and> decode image_bytes = Inr img
      \<and> (primary_model (self st) \<noteq> None \<or> secondary_model (self st) \<noteq> None) \<longrightarrow>
      detect_ingredients_both_models decode image_bytes st =
        (Inr \<lparr>model1 = counted_or_empty (primary_model (self st))
                          (primary_class_names (self st)) img,
              model2 = counted_or_empty (secondary_model (self st))
                          (secondary_class_names (self st)) img\<rparr>,
         st\<lparr>calls := calls st @ attempted Primary (primary_model (self st))
                          @ attempted Secondary (secondary_model (self st))\<rparr>))
   \<and> (primary_model (self st) = None \<and> secondary_model (self st) = None \<longrightarrow>
        detect_ingredients_both_models decode image_bytes st =
          (Inl (DetectionModelNotReady
                  (if image_bytes = [] then ''Image payload was empty.''
                   else error_or (primary_model_error (self st)) (secondary_model_error (self st))
                          ''No detection models are available.'')), st)
        \<and> detect_ingredients decode image_bytes st =
          (Inl (DetectionModelNotReady
                  (if image_bytes = [] then ''Image payload was empty.''
                   else error_or (primary_model_error (self st)) (secondary_model_error (self st))
                          ''No detection models are available.'')), st))"
proof -
  have 1: "detect_ingredients_both_models decode image_bytes st =
        (Inr \<lparr>model1 = counted_or_empty (primary_model (self st))
                          (primary_class_names (self st)) img,
              model2 = counted_or_empty (secondary_model (self st))
                          (secondary_class_names (self st)) img\<rparr>,
         st\<lparr>calls := calls st @ attempted Primary (primary_model (self st))
                          @ attempted Secondary (secondary_model (self st))\<rparr>)"
    if "image_bytes \<noteq> []" "decode image_bytes = Inr img"
      "primary_model (self st) \<noteq> None \<or> secondary_model (self st) \<noteq> None"
    using that
    by (auto simp: detect_ingredients_both_models_def primary_model_ready_def
        secondary_model_ready_def run_slot_grouped_eq)
  have 2: "detect_ingredients_both_models decode image_bytes st =
          (Inl (DetectionModelNotReady
                  (if image_bytes = [] then ''Image payload was empty.''
                   else error_or (primary_model_error (self st)) (secondary_model_error (self st))
                          ''No detection models are available.'')), st)"
    if "primary_model (self st) = None" "secondary_model (self st) = None"
    using that
    by (simp add: detect_ingredients_both_models_def primary_model_ready_def
        secondary_model_ready_def)
  have 3: "detect_ingredients decode image_bytes st =
          (Inl (DetectionModelNotReady
                  (if image_bytes = [] then ''Image payload was empty.''
                   else error_or (primary_model_error (self st)) (secondary_model_error (self st))
                          ''No detection models are available.'')), st)"
    if "primary_model (self st) = None" "secondary_model (self st) = None"
    using that
    by (simp add: detect_ingredients_def model_ready_def)
  from 1 2 3 show ?thesis by blast
qed

lemma fridge_counted:
  "group_and_count_detections fridge_detections =
     [\<lparr>name = ''tomato'', category = ''vegetables'', quantity = 2, confidence = 0.8,
       bbox = [0, 0, 10, 10], unit = ''item''\<rparr>,
      \<lparr>name = ''egg'', category = ''dairy'', quantity = 1, confidence = 0.99,
       bbox = [5, 5, 8, 8], unit = ''item''\<rparr>]"
  by code_simp

theorem detect_ingredients_both_models_degrades_witness:
  "detect_ingredients_both_models jpeg_decode jpeg_bytes
     (fresh (service_of (Some (raises ''boom'')) (Some sees_fridge) False))
   = (Inr \<lparr>model1 = [],
           model2 = [\<lparr>name = ''tomato'', category = ''vegetables'', quantity = 2,
                      confidence = 0.8, bbox = [0, 0, 10, 10], unit = ''item''\<rparr>,
                     \<lparr>name = ''egg'', category = ''dairy'', quantity = 1,
                      confidence = 0.99, bbox = [5, 5, 8, 8], unit = ''item''\<rparr>]\<rparr>,
      \<lparr>self = service_of (Some (raises ''boom'')) (Some sees_fridge) False,
       calls = [Primary, Secondary]\<rparr>)
   \<and> detect_ingredients_both_models jpeg_decode jpeg_bytes (fresh unloaded_service)
     = (Inl (DetectionModelNotReady ''Model weights not found at models/best.pt''),
        fresh unloaded_service)
   \<and> detect_ingredients jpeg_decode jpeg_bytes (fresh unloaded_service)
     = (Inl (DetectionModelNotReady ''Model weights not found at models/best.pt''),
        fresh unloaded_service)"
proof -
  let ?a = "fresh (service_of (Some (raises ''boom'')) (Some sees_fridge) False)"
  let ?u = "fresh unloaded_service"
  note ta = detect_ingredients_both_models_degrades [of jpeg_bytes jpeg_decode "()" ?a]
  note tu = detect_ingredients_both_models_degrades [of jpeg_bytes jpeg_decode "()" ?u]
  have ha: "primary_model (self ?a) \<noteq> None \<or> secondary_model (self ?a) \<noteq> None"
    by (simp add: fresh_def service_of_def)
  have hu: "primary_model (self ?u) = None \<and> secondary_model (self ?u) = None"
    by (simp add: fresh_def unloaded_service_def)
  have c1: "counted_or_empty (primary_model (self ?a)) (primary_class_names (self ?a)) () = []"
    by (simp add: fresh_def service_of_def counted_or_empty_def raises_def)
  have c2: "counted_or_empty (secondary_model (self ?a)) (secondary_class_names (self ?a)) ()
              = group_and_count_detections fridge_detections"
    by (simp add: fresh_def service_of_def counted_or_empty_def sees_fridge_def fridge_classified)
  have at: "calls ?a @ attempted Primary (primary_model (self ?a))
              @ attempted Secondary (secondary_model (self ?a)) = [Primary, Secondary]"
    by (simp add: fresh_def service_of_def attempted_def)
  have msg: "(if jpeg_bytes = [] then ''Image payload was empty.''
              else error_or (primary_model_error (self ?u)) (secondary_model_error (self ?u))
                     ''No detection models are available.'')
             = ''Model weights not found at models/best.pt''"
    by (simp add: jpeg_decodes fresh_def unloaded_service_def error_or_def)
  from ta ha jpeg_decodes
  have "detect_ingredients_both_models jpeg_decode jpeg_bytes ?a =
        (Inr \<lparr>model1 = counted_or_empty (primary_model (self ?a)) (primary_class_names (self ?a)) (),
              model2 = counted_or_empty (secondary_model (self ?a))
                          (secondary_class_names (self ?a)) ()\<rparr>,
         ?a\<lparr>calls := calls ?a @ attempted Primary (primary_model (self ?a))
                          @ attempted Secondary (secondary_model (self ?a))\<rparr>)"
    by blast
  then have a: "detect_ingredients_both_models jpeg_decode jpeg_bytes ?a =
        (Inr \<lparr>model1 = [], model2 = group_and_count_detections fridge_detections\<rparr>,
         ?a\<lparr>calls := [Primary, Secondary]\<rparr>)"
    by (simp only: c1 c2 at)
  from tu hu have "detect_ingredients_both_models jpeg_decode jpeg_bytes ?u =
          (Inl (DetectionModelNotReady
                  (if jpeg_bytes = [] then ''Image payload was empty.''
                   else error_or (primary_model_error (self ?u)) (secondary_model_error (self ?u))
                          ''No detection models are available.'')), ?u)
        \<and> detect_ingredients jpeg_decode jpeg_bytes ?u =
          (Inl (DetectionModelNotReady
                  (if jpeg_bytes = [] then ''Image payload was empty.''
                   else error_or (primary_model_error (self ?u)) (secondary_model_error (self ?u))
                          ''No detection models are available.'')), ?u)"
    by blast
  then have u: "detect_ingredients_both_models jpeg_decode jpeg_bytes ?u =
          (Inl (DetectionModelNotReady ''Model weights not found at models/best.pt''), ?u)
        \<and> detect_ingredients jpeg_decode jpeg_bytes ?u =
          (Inl (DetectionModelNotReady ''Model weights not found at models/best.pt''), ?u)"
    by (simp only: msg)
  from a u show ?thesis
    by (simp add: fridge_counted fresh_def)
qed

text \<open>
  C9. Whatever \<^verbatim>\<open>detect_ingredients\<close> returns or raises, the service object after the
  call is the one before it: models, label maps, load errors and the ensemble flag, and
  so the answers of the readiness queries. Only the log of model calls grows.
\<close>

theorem detect_ingredients_keeps_registry:
  "self (snd (detect_ingredients decode image_bytes st)) = self st
   \<and> primary_model (self (snd (detect_ingredients decode image_bytes st)))
       = primary_model (self st)
   \<and> secondary_model (self (snd (detect_ingredients decode image_bytes st)))
       = secondary_model (self st)
   \<and> primary_class_names (self (snd (detect_ingredients decode image_bytes st)))
       = primary_class_names (self st)
   \<and> secondary_class_names (self (snd (detect_ingredients decode image_bytes st)))
       = secondary_class_names (self st)
   \<and> primary_model_error (self (snd (detect_ingredients decode image_bytes st)))
       = primary_model_error (self st)
   \<and> secondary_model_error (self (snd (detect_ingredients decode image_bytes st)))
       = secondary_model_error (self st)
   \<and> use_ensemble (self (snd (detect_ingredients decode image_bytes st)))
       = use_ensemble (self st)
   \<and> model_ready (self (snd (detect_ingredients decode image_bytes st)))
       = model_ready (self st)
   \<and> primary_model_ready (self (snd (detect_ingredients decode image_bytes st)))
       = primary_model_ready (self st)
   \<and> secondary_model_ready (self (snd (detect_ingredients decode image_bytes st)))
       = secondary_model_ready (self st)
   \<and> ensemble_mode (self (snd (detect_ingredients decode image_bytes st)))
       = ensemble_mode (self st)"
proof -
  obtain r st' where run: "detect_ingredients decode image_bytes st = (r, st')"
    by (cases "detect_ingredients decode image_bytes st")
  then have "self st' = self st"
    by (rule detect_ingredients_self)
  with run show ?thesis by simp
qed

theorem detect_ingredients_keeps_registry_witness:
  "fst (detect_ingredients jpeg_decode jpeg_bytes
          (fresh (service_of (Some (raises ''boom'')) None False)))
     = Inl (DetectionModelNotReady ''Detection models are not available.'')
   \<and> self (snd (detect_ingredients jpeg_decode jpeg_bytes
          (fresh (service_of (Some (raises ''boom'')) None False))))
     = service_of (Some (raises ''boom'')) None False
   \<and> primary_model_ready (self (snd (detect_ingredients jpeg_decode jpeg_bytes
          (fresh (service_of (Some (raises ''boom'')) None False)))))"
proof -
  let ?st = "fresh (service_of (Some (raises ''boom'')) None False)"
  note t = detect_ingredients_keeps_registry [of jpeg_decode jpeg_bytes ?st]
  have r: "fst (detect_ingredients jpeg_decode jpeg_bytes ?st)
             = Inl (DetectionModelNotReady ''Detection models are not available.'')"
    by (simp add: detect_ingredients_def model_ready_def primary_model_ready_def
        secondary_model_ready_def fallback_to_secondary_def detect_with_model_def
        jpeg_decodes fresh_def service_of_def raises_def error_or_def)
  have s: "self ?st = service_of (Some (raises ''boom'')) None False"
    "primary_model_ready (self ?st)"
    by (simp_all add: fresh_def service_of_def primary_model_ready_def)
  from t s have "self (snd (detect_ingredients jpeg_decode jpeg_bytes ?st))
                   = service_of (Some (raises ''boom'')) None False"
    "primary_model_ready (self (snd (detect_ingredients jpeg_decode jpeg_bytes ?st)))"
    by simp_all
  with r show ?thesis by simp
qed

end
